theory Spec2Isabelle
  imports Complex_Main
begin

section \<open>IdentityCloud: trust scores, escrow wallets and lineage\<close>

text \<open>
  A shallow embedding of the identity service: the domain package (trust score
  accessors, wallet), the Neo4j repository (each Cypher query as a function from graph
  to graph), the service layer and the gRPC handlers of the wallet and lineage calls.
\<close>

subsection \<open>Binary64 arithmetic\<close>

text \<open>
  Go's \<open>float64\<close> and Cypher's \<open>toFloat\<close> values are IEEE 754 binary64 numbers. A finite
  binary64 value is a rational, and every operation returns the exact result rounded to
  the nearest value with a 53 bit significand, ties to the even significand; below
  \<open>2 powi (- 1022)\<close> the spacing stays at \<open>2 powi (- 1074)\<close>. Infinities and NaN are
  not represented: the model covers magnitudes below \<open>2 ^ 1024\<close>.
\<close>

function bitlen :: "int \<Rightarrow> int" where
  "bitlen n = (if n \<le> 0 then 0 else 1 + bitlen (n div 2))"
  by pat_completeness auto
termination
  by (relation "measure nat") auto

declare bitlen.simps [simp del]

definition round_half_even :: "rat \<Rightarrow> int" where
  "round_half_even x =
     (let f = \<lfloor>x\<rfloor>; r = x - of_int f
      in if r < 1 / 2 then f else if 1 / 2 < r then f + 1 else if even f then f else f + 1)"

definition ilog2 :: "rat \<Rightarrow> int" where
  "ilog2 x =
     (let (p, q) = quotient_of x;
          k = bitlen p - bitlen q
      in if 2 powi k \<le> x then k else k - 1)"

definition f64_pos :: "rat \<Rightarrow> rat" where
  "f64_pos x =
     (let e = max (ilog2 x) (- 1022); q = 2 powi (e - 52)
      in of_int (round_half_even (x / q)) * q)"

definition f64 :: "rat \<Rightarrow> rat" where
  "f64 x = (if x = 0 then 0 else if 0 < x then f64_pos x else - f64_pos (- x))"

text \<open>
  Go's unsigned integers are integers in \<open>{0..<2 ^ 32}\<close> and \<open>{0..<2 ^ 64}\<close>; the
  conversions write the reduction out. The conversion of a float to \<open>uint32\<close> drops the
  fraction; the floats converted below are a \<open>uint32\<close> value times a factor of at most
  one, so they are in range.
\<close>

definition trunc :: "rat \<Rightarrow> int" where
  "trunc x = (if 0 \<le> x then \<lfloor>x\<rfloor> else \<lceil>x\<rceil>)"

definition uint32_of_float :: "rat \<Rightarrow> int" where
  "uint32_of_float x = trunc x mod 2 ^ 32"

definition uint32_of_int64 :: "int \<Rightarrow> int" where
  "uint32_of_int64 v = v mod 2 ^ 32"

definition uint64_of_int64 :: "int \<Rightarrow> int" where
  "uint64_of_int64 v = v mod 2 ^ 64"

subsection \<open>Domain model\<close>

text \<open>
  The records keep the fields that the code reads. The \<open>UpdatedAt\<close> fields, the wallet's
  \<open>ID\<close> and the lineage's \<open>SpawnedAt\<close> go from the store to the reply untouched and are
  left out; an instant is a number of milliseconds.
\<close>

type_synonym did = string
type_synonym time = int

datatype EntityType = EntityTypeUnspecified | EntityTypeHuman | EntityTypeAgent
  | EntityTypeOrganization

fun EntityType_String :: "EntityType \<Rightarrow> string" where
  "EntityType_String EntityTypeHuman = ''human''"
| "EntityType_String EntityTypeAgent = ''agent''"
| "EntityType_String EntityTypeOrganization = ''organization''"
| "EntityType_String EntityTypeUnspecified = ''unspecified''"

record UnifiedID =
  DID :: did
  EntityTypeOf :: EntityType
  ParentDID :: "did option"
  CreatedAt :: time
  PublicKey :: "int list"

record TrustComponents =
  VerificationScore :: int
  DisputePenalty :: int
  SLAScore :: int
  NetworkScore :: int

record TrustScore =
  Score :: int
  Components :: TrustComponents
  VerifiedOutcomes :: int
  DisputeRate :: rat
  Version :: int

definition MaxScore :: int where "MaxScore = 1000"
definition MaxDiscountRate :: rat where "MaxDiscountRate = f64 (20 / 100)"
definition InheritedTrust :: rat where "InheritedTrust = f64 (30 / 100)"
definition MinInheritedTau :: rat where "MinInheritedTau = f64 (10 / 100)"

definition Tau :: "TrustScore \<Rightarrow> rat" where
  "Tau t = f64 (of_int (Score t) / of_int MaxScore)"

definition DiscountRate :: "TrustScore \<Rightarrow> rat" where
  "DiscountRate t =
     (let discount = f64 (Tau t * MaxDiscountRate)
      in if MaxDiscountRate < discount then MaxDiscountRate else discount)"

definition InheritedTauForChild :: "TrustScore \<Rightarrow> rat" where
  "InheritedTauForChild t =
     (let inherited = f64 (Tau t * InheritedTrust)
      in if inherited < MinInheritedTau then MinInheritedTau else inherited)"

text \<open>
  The wallet as Go holds it. \<open>Available\<close> and \<open>Locked\<close> are \<open>decimal.Decimal\<close> values,
  exact decimals, here rationals.
\<close>

record HCWallet =
  OwnerDID :: did
  Available :: rat
  Locked :: rat
  ExpiresAt :: time
  WVersion :: int

definition Total :: "HCWallet \<Rightarrow> rat" where
  "Total w = Available w + Locked w"

definition IsExpired :: "time \<Rightarrow> HCWallet \<Rightarrow> bool" where
  "IsExpired now w = (ExpiresAt w < now)"

definition CanLock :: "time \<Rightarrow> HCWallet \<Rightarrow> rat \<Rightarrow> bool" where
  "CanLock now w amount = (amount \<le> Available w \<and> \<not> IsExpired now w)"

record AgentLineage =
  AgentDID :: did
  LineageParentDID :: "did option"
  RootDID :: did
  Depth :: int
  Ancestors :: "did list"

subsection \<open>The graph\<close>

text \<open>
  One \<open>Identity\<close> node with the \<open>TrustScore\<close> and \<open>HCWallet\<close> nodes created with it, and
  the \<open>SPAWNED\<close> edge that enters it. Integers are Neo4j's signed 64 bit integers, taken
  as unbounded (the counters start at 1 and move by one). The wallet's amounts are
  stored as text; \<open>toFloat\<close> reads the text and \<open>toString\<close> prints a float so that it
  reads back unchanged, so the node carries the float the text denotes (\<open>'0'\<close> at
  creation).
\<close>

record TrustNode =
  score :: int
  verification_score :: int
  dispute_penalty :: int
  sla_score :: int
  network_score :: int
  t_updated_at :: time
  verified_outcomes :: int
  dispute_rate :: rat
  t_version :: int

record WalletNode =
  available :: rat
  locked :: rat
  expires_at :: time
  w_version :: int
  w_updated_at :: time

record IdentityNode =
  did :: did
  entity_type :: string
  created_at :: time
  public_key :: "int list"
  spawned_by :: "did option"
  trust :: TrustNode
  wallet :: WalletNode

text \<open>The nodes, the newest first. The constraint \<open>identity_did\<close> keeps the DIDs distinct.\<close>

type_synonym graph = "IdentityNode list"

definition unique_dids :: "graph \<Rightarrow> bool" where
  "unique_dids db = distinct (map did db)"

definition P30D :: time where
  "P30D = 2592000000"

datatype error =
  ConstraintViolation
  | IdentityNotFound
  | TrustScoreNotFound
  | WalletNotFound
  | LineageNotFound
  | ConcurrentModification
  | InsufficientBalanceOrConcurrentModification
  | WalletHasExpiredCredits
  | InsufficientBalance

text \<open>\<open>MATCH (i:Identity {did: $did})\<close>: the rows of a query, and its first record.\<close>

definition match_identity :: "graph \<Rightarrow> did \<Rightarrow> IdentityNode option" where
  "match_identity db d = find (\<lambda>n. did n = d) db"

text \<open>\<open>MATCH ... WHERE hit SET upd\<close>: every matching row is written.\<close>

definition cypher_set :: "(IdentityNode \<Rightarrow> bool) \<Rightarrow> (IdentityNode \<Rightarrow> IdentityNode) \<Rightarrow> graph \<Rightarrow> graph" where
  "cypher_set hit upd db = map (\<lambda>n. if hit n then upd n else n) db"

definition cypher_rows :: "(IdentityNode \<Rightarrow> bool) \<Rightarrow> graph \<Rightarrow> graph" where
  "cypher_rows hit db = filter hit db"


subsection \<open>What the driver and the decimal library return\<close>

text \<open>
  Two library results that the sources use and do not contain: whether the Neo4j driver
  hands a stored date-time over as a \<open>neo4j.LocalDateTime\<close> (the type assertion of the
  readers; \<open>None\<close> when it does not), and the decimal that \<open>decimal.NewFromString\<close>
  reads from the text that \<open>toString\<close> printed for a float. Both are parameters.
\<close>

record driver =
  local_datetime :: "time \<Rightarrow> time option"
  decimal_text :: "rat \<Rightarrow> rat"

definition zero_time :: time where
  "zero_time = - 62135596800000"

definition read_time :: "driver \<Rightarrow> time \<Rightarrow> time" where
  "read_time drv v = (case local_datetime drv v of Some t \<Rightarrow> t | None \<Rightarrow> zero_time)"

subsection \<open>Repository\<close>

definition initial_trust :: "time \<Rightarrow> TrustNode" where
  "initial_trust created =
     \<lparr>score = 500, verification_score = 200, dispute_penalty = 0, sla_score = 100,
      network_score = 200, t_updated_at = created, verified_outcomes = 0, dispute_rate = 0,
      t_version = 1\<rparr>"

definition initial_wallet :: "time \<Rightarrow> time \<Rightarrow> WalletNode" where
  "initial_wallet now created =
     \<lparr>available = 0, locked = 0, expires_at = now + P30D, w_version = 1,
      w_updated_at = created\<rparr>"

text \<open>
  \<open>CreateIdentity\<close> creates the identity with its trust score and wallet in one
  transaction. Under the constraint \<open>identity_did\<close> of \<open>CreateConstraintsAndIndexes\<close> the
  \<open>CREATE\<close> fails for a DID that is there already. The \<open>OPTIONAL MATCH\<close> of the parent
  runs after the \<open>CREATE\<close>, so it sees the new node too.
\<close>

definition CreateIdentity :: "time \<Rightarrow> graph \<Rightarrow> UnifiedID \<Rightarrow> (error + unit) \<times> graph" where
  "CreateIdentity now db ident =
     (if list_ex (\<lambda>n. did n = DID ident) db then (Inl ConstraintViolation, db)
      else
        let parent = (case ParentDID ident of
                        None \<Rightarrow> None
                      | Some p \<Rightarrow>
                          if p = DID ident \<or> list_ex (\<lambda>n. did n = p) db then Some p else None);
            i = \<lparr>did = DID ident, entity_type = EntityType_String (EntityTypeOf ident),
                 created_at = CreatedAt ident, public_key = PublicKey ident,
                 spawned_by = parent, trust = initial_trust (CreatedAt ident),
                 wallet = initial_wallet now (CreatedAt ident)\<rparr>
        in (Inr (), i # db))"

definition parse_entity_type :: "string \<Rightarrow> EntityType" where
  "parse_entity_type s =
     (if s = ''human'' then EntityTypeHuman
      else if s = ''agent'' then EntityTypeAgent
      else if s = ''organization'' then EntityTypeOrganization
      else EntityTypeUnspecified)"

definition GetIdentity :: "driver \<Rightarrow> graph \<Rightarrow> did \<Rightarrow> error + UnifiedID" where
  "GetIdentity drv db d =
     (case match_identity db d of
        None \<Rightarrow> Inl IdentityNotFound
      | Some n \<Rightarrow>
          Inr \<lparr>DID = did n, EntityTypeOf = parse_entity_type (entity_type n),
               ParentDID = spawned_by n, CreatedAt = read_time drv (created_at n),
               PublicKey = public_key n\<rparr>)"

definition GetTrustScore :: "graph \<Rightarrow> did \<Rightarrow> error + TrustScore" where
  "GetTrustScore db d =
     (case match_identity db d of
        None \<Rightarrow> Inl TrustScoreNotFound
      | Some n \<Rightarrow>
          Inr \<lparr>Score = uint32_of_int64 (score (trust n)),
               Components =
                 \<lparr>VerificationScore = uint32_of_int64 (verification_score (trust n)),
                  DisputePenalty = uint32_of_int64 (dispute_penalty (trust n)),
                  SLAScore = uint32_of_int64 (sla_score (trust n)),
                  NetworkScore = uint32_of_int64 (network_score (trust n))\<rparr>,
               VerifiedOutcomes = uint64_of_int64 (verified_outcomes (trust n)),
               DisputeRate = dispute_rate (trust n),
               Version = uint64_of_int64 (t_version (trust n))\<rparr>)"

definition UpdateTrustScore :: "time \<Rightarrow> graph \<Rightarrow> did \<Rightarrow> TrustScore \<Rightarrow> (error + unit) \<times> graph" where
  "UpdateTrustScore now db d update =
     (let hit = (\<lambda>n. did n = d \<and> t_version (trust n) = Version update);
          upd = (\<lambda>n. n\<lparr>trust := (trust n)
                   \<lparr>score := Score update,
                    verification_score := VerificationScore (Components update),
                    dispute_penalty := DisputePenalty (Components update),
                    sla_score := SLAScore (Components update),
                    network_score := NetworkScore (Components update),
                    t_updated_at := now,
                    verified_outcomes := VerifiedOutcomes update,
                    dispute_rate := DisputeRate update,
                    t_version := t_version (trust n) + 1\<rparr>\<rparr>)
      in if cypher_rows hit db = [] then (Inl ConcurrentModification, db)
         else (Inr (), cypher_set hit upd db))"

text \<open>
  The \<open>SET\<close> items of one clause are written one after the other, so the last item, the
  score, reads the verification and SLA scores that the items before it stored.
\<close>

definition record_outcome :: "time \<Rightarrow> bool \<Rightarrow> int \<Rightarrow> TrustNode \<Rightarrow> TrustNode" where
  "record_outcome now passed latency_ms t =
     (let t1 = t\<lparr>verified_outcomes := verified_outcomes t + 1\<rparr>;
          t2 = t1\<lparr>t_updated_at := now\<rparr>;
          t3 = t2\<lparr>t_version := t_version t2 + 1\<rparr>;
          t4 = t3\<lparr>verification_score :=
                 (if passed
                  then (if verification_score t3 < 400 then verification_score t3 + 1 else 400)
                  else (if 0 < verification_score t3 then verification_score t3 - 2 else 0))\<rparr>;
          t5 = t4\<lparr>sla_score :=
                 (if latency_ms \<le> 2000
                  then (if sla_score t4 < 200 then sla_score t4 + 1 else 200)
                  else (if 0 < sla_score t4 then sla_score t4 - 1 else 0))\<rparr>
      in t5\<lparr>score := verification_score t5 + sla_score t5 + network_score t5
                         - dispute_penalty t5\<rparr>)"

definition RecordVerificationOutcome :: "time \<Rightarrow> graph \<Rightarrow> did \<Rightarrow> bool \<Rightarrow> int \<Rightarrow> (error + unit) \<times> graph" where
  "RecordVerificationOutcome now db d passed latencyMs =
     (Inr (),
      cypher_set (\<lambda>n. did n = d)
        (\<lambda>n. n\<lparr>trust := record_outcome now passed latencyMs (trust n)\<rparr>) db)"

definition GetHCWallet :: "driver \<Rightarrow> graph \<Rightarrow> did \<Rightarrow> error + HCWallet" where
  "GetHCWallet drv db d =
     (case match_identity db d of
        None \<Rightarrow> Inl WalletNotFound
      | Some n \<Rightarrow>
          Inr \<lparr>OwnerDID = d,
               Available = decimal_text drv (available (wallet n)),
               Locked = decimal_text drv (locked (wallet n)),
               ExpiresAt = read_time drv (expires_at (wallet n)),
               WVersion = uint64_of_int64 (w_version (wallet n))\<rparr>)"

definition LockHC :: "time \<Rightarrow> graph \<Rightarrow> did \<Rightarrow> rat \<Rightarrow> int \<Rightarrow> (error + unit) \<times> graph" where
  "LockHC now db d amount version =
     (let amountFloat = f64 amount;
          hit = (\<lambda>n. did n = d \<and> w_version (wallet n) = version
                      \<and> amountFloat \<le> available (wallet n) \<and> now < expires_at (wallet n));
          upd = (\<lambda>n. n\<lparr>wallet := (wallet n)
                   \<lparr>available := f64 (available (wallet n) - amountFloat),
                    locked := f64 (locked (wallet n) + amountFloat),
                    w_updated_at := now,
                    w_version := w_version (wallet n) + 1\<rparr>\<rparr>)
      in if cypher_rows hit db = [] then (Inl InsufficientBalanceOrConcurrentModification, db)
         else (Inr (), cypher_set hit upd db))"

definition ReleaseHC :: "time \<Rightarrow> graph \<Rightarrow> did \<Rightarrow> rat \<Rightarrow> (error + unit) \<times> graph" where
  "ReleaseHC now db d amount =
     (let amountFloat = f64 amount;
          hit = (\<lambda>n. did n = d \<and> amountFloat \<le> locked (wallet n));
          upd = (\<lambda>n. n\<lparr>wallet := (wallet n)
                   \<lparr>locked := f64 (locked (wallet n) - amountFloat),
                    w_updated_at := now,
                    w_version := w_version (wallet n) + 1\<rparr>\<rparr>)
      in (Inr (), cypher_set hit upd db))"

definition RefundHC :: "time \<Rightarrow> graph \<Rightarrow> did \<Rightarrow> rat \<Rightarrow> (error + unit) \<times> graph" where
  "RefundHC now db d amount =
     (let amountFloat = f64 amount;
          hit = (\<lambda>n. did n = d \<and> amountFloat \<le> locked (wallet n));
          upd = (\<lambda>n. n\<lparr>wallet := (wallet n)
                   \<lparr>available := f64 (available (wallet n) + amountFloat),
                    locked := f64 (locked (wallet n) - amountFloat),
                    w_updated_at := now,
                    w_version := w_version (wallet n) + 1\<rparr>\<rparr>)
      in (Inr (), cypher_set hit upd db))"

definition CreditHC :: "time \<Rightarrow> graph \<Rightarrow> did \<Rightarrow> rat \<Rightarrow> (error + unit) \<times> graph" where
  "CreditHC now db d amount =
     (let amountFloat = f64 amount;
          upd = (\<lambda>n. n\<lparr>wallet := (wallet n)
                   \<lparr>available := f64 (available (wallet n) + amountFloat),
                    expires_at := (if expires_at (wallet n) < now + P30D then now + P30D
                                   else expires_at (wallet n)),
                    w_updated_at := now,
                    w_version := w_version (wallet n) + 1\<rparr>\<rparr>)
      in (Inr (), cypher_set (\<lambda>n. did n = d) upd db))"

text \<open>
  \<open>MATCH path = (root)-[:SPAWNED*0..]->(agent {did: $did}) WHERE NOT ()-[:SPAWNED]->(root)\<close>:
  the DIDs of \<open>nodes(path)\<close>, the root first and the agent last. An identity is spawned
  by an identity that was there before it, so the parent is looked up among the older
  nodes.
\<close>

fun spawn_path :: "graph \<Rightarrow> did \<Rightarrow> did list option" where
  "spawn_path [] d = None"
| "spawn_path (n # ns) d =
     (if did n = d
      then (case spawned_by n of
              None \<Rightarrow> Some [d]
            | Some p \<Rightarrow> map_option (\<lambda>ps. ps @ [d]) (spawn_path ns p))
      else spawn_path ns d)"

definition GetAgentLineage :: "graph \<Rightarrow> did \<Rightarrow> error + AgentLineage" where
  "GetAgentLineage db d =
     (case (spawn_path db d, match_identity db d) of
        (Some ps, Some n) \<Rightarrow>
          Inr \<lparr>AgentDID = did n, LineageParentDID = spawned_by n, RootDID = hd ps,
               Depth = int (length ps) - 1, Ancestors = ps\<rparr>
      | _ \<Rightarrow> Inl LineageNotFound)"


subsection \<open>Service\<close>

text \<open>
  \<open>CreateIdentity\<close> of the service draws a key pair and derives the DID from the public
  key; the model takes both as arguments. A call reads the clock once. The service's
  \<open>RecordVerificationOutcome\<close>, \<open>ReleaseHCFromEscrow\<close>, \<open>RefundHCFromEscrow\<close>, \<open>CreditHC\<close>
  and \<open>GetAgentLineage\<close> hand their arguments to the repository function and return its
  result.
\<close>

definition inheritParentTrust :: "time \<Rightarrow> graph \<Rightarrow> did \<Rightarrow> did \<Rightarrow> (error + unit) \<times> graph" where
  "inheritParentTrust now db childDID parentDID =
     (case GetTrustScore db parentDID of
        Inl e \<Rightarrow> (Inl e, db)
      | Inr parentTrust \<Rightarrow>
          let inheritedTau = InheritedTauForChild parentTrust;
              inheritedScore = uint32_of_float (f64 (inheritedTau * of_int MaxScore))
          in case GetTrustScore db childDID of
               Inl e \<Rightarrow> (Inl e, db)
             | Inr childTrust \<Rightarrow>
                 UpdateTrustScore now db childDID
                   (childTrust
                      \<lparr>Score := inheritedScore,
                       Components := (Components childTrust)
                         \<lparr>VerificationScore :=
                            uint32_of_float
                              (f64 (of_int (VerificationScore (Components parentTrust))
                                    * InheritedTrust)),
                          NetworkScore :=
                            uint32_of_float
                              (f64 (of_int (NetworkScore (Components parentTrust))
                                    * InheritedTrust))\<rparr>\<rparr>))"

definition Service_CreateIdentity :: "time \<Rightarrow> graph \<Rightarrow> did \<Rightarrow> int list \<Rightarrow> EntityType \<Rightarrow> did option \<Rightarrow> (error + UnifiedID) \<times> graph" where
  "Service_CreateIdentity now db newDID publicKey entityType parentDID =
     (let identity = \<lparr>DID = newDID, EntityTypeOf = entityType, ParentDID = parentDID,
                      CreatedAt = now, PublicKey = publicKey\<rparr>
      in case CreateIdentity now db identity of
           (Inl e, db') \<Rightarrow> (Inl e, db')
         | (Inr u, db') \<Rightarrow>
             (case parentDID of
                None \<Rightarrow> (Inr identity, db')
              | Some p \<Rightarrow> (Inr identity, snd (inheritParentTrust now db' newDID p))))"

definition LockHCForEscrow :: "driver \<Rightarrow> time \<Rightarrow> graph \<Rightarrow> did \<Rightarrow> rat \<Rightarrow> (error + unit) \<times> graph" where
  "LockHCForEscrow drv now db d amount =
     (case GetHCWallet drv db d of
        Inl e \<Rightarrow> (Inl e, db)
      | Inr w \<Rightarrow>
          if IsExpired now w then (Inl WalletHasExpiredCredits, db)
          else if \<not> CanLock now w amount then (Inl InsufficientBalance, db)
          else LockHC now db d amount (WVersion w))"

subsection \<open>gRPC handlers\<close>

text \<open>
  A handler answers with a status (code and message) or with its reply. The amount of a
  request is text: it is empty, or \<open>decimal.NewFromString\<close> rejects it, or it reads as a
  decimal.
\<close>

datatype code = InvalidArgument | NotFound | Internal | FailedPrecondition

type_synonym status = "code \<times> string"

datatype amount_text = NoAmount | NotADecimal | Decimal rat

text \<open>Every wallet handler ends by loading the wallet for its reply.\<close>

definition wallet_reply :: "driver \<Rightarrow> graph \<Rightarrow> did \<Rightarrow> (status + HCWallet) \<times> graph" where
  "wallet_reply drv db d =
     (case GetHCWallet drv db d of
        Inl e \<Rightarrow> (Inl (Internal, ''failed to get wallet''), db)
      | Inr w \<Rightarrow> (Inr w, db))"

definition CreditWallet :: "driver \<Rightarrow> time \<Rightarrow> graph \<Rightarrow> did \<Rightarrow> amount_text \<Rightarrow> (status + HCWallet) \<times> graph" where
  "CreditWallet drv now db d amt =
     (if d = [] then (Inl (InvalidArgument, ''did is required''), db)
      else case amt of
        NoAmount \<Rightarrow> (Inl (InvalidArgument, ''amount is required''), db)
      | NotADecimal \<Rightarrow> (Inl (InvalidArgument, ''invalid amount''), db)
      | Decimal amount \<Rightarrow>
          if amount \<le> 0 then (Inl (InvalidArgument, ''amount must be positive''), db)
          else (case CreditHC now db d amount of
                  (Inl e, db') \<Rightarrow> (Inl (Internal, ''failed to credit wallet''), db')
                | (Inr u, db') \<Rightarrow> wallet_reply drv db' d))"

definition DebitWallet :: "driver \<Rightarrow> time \<Rightarrow> graph \<Rightarrow> did \<Rightarrow> amount_text \<Rightarrow> (status + HCWallet) \<times> graph" where
  "DebitWallet drv now db d amt =
     (if d = [] then (Inl (InvalidArgument, ''did is required''), db)
      else case amt of
        NoAmount \<Rightarrow> (Inl (InvalidArgument, ''amount is required''), db)
      | NotADecimal \<Rightarrow> (Inl (InvalidArgument, ''invalid amount''), db)
      | Decimal amount \<Rightarrow>
          if amount \<le> 0 then (Inl (InvalidArgument, ''amount must be positive''), db)
          else (case LockHCForEscrow drv now db d amount of
                  (Inl e, db') \<Rightarrow> (Inl (FailedPrecondition, ''failed to debit wallet''), db')
                | (Inr u, db') \<Rightarrow>
                    (case ReleaseHC now db' d amount of
                       (Inl e, db'') \<Rightarrow> (Inl (Internal, ''failed to release from escrow''), db'')
                     | (Inr u, db'') \<Rightarrow> wallet_reply drv db'' d)))"

definition LockWallet :: "driver \<Rightarrow> time \<Rightarrow> graph \<Rightarrow> did \<Rightarrow> amount_text \<Rightarrow> (status + HCWallet) \<times> graph" where
  "LockWallet drv now db d amt =
     (if d = [] then (Inl (InvalidArgument, ''did is required''), db)
      else case amt of
        NoAmount \<Rightarrow> (Inl (InvalidArgument, ''amount is required''), db)
      | NotADecimal \<Rightarrow> (Inl (InvalidArgument, ''invalid amount''), db)
      | Decimal amount \<Rightarrow>
          (case LockHCForEscrow drv now db d amount of
             (Inl e, db') \<Rightarrow> (Inl (FailedPrecondition, ''failed to lock wallet''), db')
           | (Inr u, db') \<Rightarrow> wallet_reply drv db' d))"

definition ReleaseWallet :: "driver \<Rightarrow> time \<Rightarrow> graph \<Rightarrow> did \<Rightarrow> amount_text \<Rightarrow> did option \<Rightarrow> (status + HCWallet) \<times> graph" where
  "ReleaseWallet drv now db d amt targetDid =
     (if d = [] then (Inl (InvalidArgument, ''did is required''), db)
      else case amt of
        NoAmount \<Rightarrow> (Inl (InvalidArgument, ''amount is required''), db)
      | NotADecimal \<Rightarrow> (Inl (InvalidArgument, ''invalid amount''), db)
      | Decimal amount \<Rightarrow>
          (case (if targetDid \<noteq> None \<and> targetDid \<noteq> Some [] then targetDid else None) of
             Some target \<Rightarrow>
               (case ReleaseHC now db d amount of
                  (Inl e, db') \<Rightarrow> (Inl (Internal, ''failed to release escrow''), db')
                | (Inr u, db') \<Rightarrow>
                    (case CreditHC now db' target amount of
                       (Inl e, db'') \<Rightarrow> (Inl (Internal, ''failed to credit target''), db'')
                     | (Inr u, db'') \<Rightarrow> wallet_reply drv db'' d))
           | None \<Rightarrow>
               (case RefundHC now db d amount of
                  (Inl e, db') \<Rightarrow> (Inl (Internal, ''failed to refund escrow''), db')
                | (Inr u, db') \<Rightarrow> wallet_reply drv db' d)))"

text \<open>The loop of \<open>ResolveLineage\<close> over \<open>lineage.Ancestors\<close>.\<close>

fun add_ancestors :: "driver \<Rightarrow> graph \<Rightarrow> did list \<Rightarrow> rat \<Rightarrow> UnifiedID list \<Rightarrow> rat list \<Rightarrow> UnifiedID list \<times> rat list" where
  "add_ancestors drv db [] inheritanceFactor lineageIDs trustInheritance =
     (lineageIDs, trustInheritance)"
| "add_ancestors drv db (ancestorDID # rest) inheritanceFactor lineageIDs trustInheritance =
     (case GetIdentity drv db ancestorDID of
        Inl e \<Rightarrow> add_ancestors drv db rest inheritanceFactor lineageIDs trustInheritance
      | Inr ancestor \<Rightarrow>
          add_ancestors drv db rest (f64 (inheritanceFactor * InheritedTrust))
            (lineageIDs @ [ancestor]) (trustInheritance @ [inheritanceFactor]))"

definition ResolveLineage :: "driver \<Rightarrow> graph \<Rightarrow> did \<Rightarrow> status + UnifiedID list \<times> rat list" where
  "ResolveLineage drv db d =
     (if d = [] then Inl (InvalidArgument, ''did is required'')
      else case GetAgentLineage db d of
        Inl e \<Rightarrow> Inl (NotFound, ''lineage not found'')
      | Inr lineage \<Rightarrow>
          (case GetIdentity drv db d of
             Inl e \<Rightarrow> Inl (Internal, ''failed to get identity'')
           | Inr currentIdentity \<Rightarrow>
               Inr (add_ancestors drv db (Ancestors lineage) InheritedTrust
                      [currentIdentity] [1])))"

subsection \<open>Reading the stored state\<close>

text \<open>The trust score and the wallet that a query on a DID finds first.\<close>

definition stored_trust :: "graph \<Rightarrow> did \<Rightarrow> TrustNode option" where
  "stored_trust db d = map_option trust (match_identity db d)"

definition stored_wallet :: "graph \<Rightarrow> did \<Rightarrow> WalletNode option" where
  "stored_wallet db d = map_option wallet (match_identity db d)"

definition wallet_total :: "driver \<Rightarrow> graph \<Rightarrow> did \<Rightarrow> rat option" where
  "wallet_total drv db d = (case GetHCWallet drv db d of Inl e \<Rightarrow> None | Inr w \<Rightarrow> Some (Total w))"

subsection \<open>The formulas of the specification\<close>

text \<open>
  Written from the specification's words, to be compared with what the code stores: the
  score as the clamped sum of the components, and the inherited score as
  \<open>round(inherited_tau * 1000)\<close>.
\<close>

definition spec_score :: "TrustNode \<Rightarrow> int" where
  "spec_score t =
     max 0 (min 1000 (verification_score t + sla_score t + network_score t - dispute_penalty t))"

definition spec_inherited_score :: "TrustScore \<Rightarrow> int" where
  "spec_inherited_score parent = round (InheritedTauForChild parent * 1000)"

subsection \<open>Reachable states\<close>

text \<open>
  The graphs that the service's operations build from the empty graph: creating an
  identity (with inheritance when a parent is given), recording a verification outcome,
  and the four wallet operations. One step is left out: a failed outcome recorded at a
  verification score of exactly 1. The repository's \<open>UpdateTrustScore\<close> is called by
  the inheritance only. \<open>trust_in_range\<close> is the invariant of these graphs: score and
  components within their ranges, and no dispute penalty, which none of these operations
  writes.
\<close>

definition trust_in_range :: "TrustNode \<Rightarrow> bool" where
  "trust_in_range t =
     (0 \<le> score t \<and> score t \<le> 1000
      \<and> 0 \<le> verification_score t \<and> verification_score t \<le> 400
      \<and> dispute_penalty t = 0
      \<and> 0 \<le> sla_score t \<and> sla_score t \<le> 200
      \<and> 0 \<le> network_score t \<and> network_score t \<le> 200)"

inductive reachable :: "graph \<Rightarrow> bool" where
  empty: "reachable []"
| create: "reachable db \<Longrightarrow>
     reachable (snd (Service_CreateIdentity now db newDID publicKey entityType parentDID))"
| outcome: "reachable db \<Longrightarrow>
     passed \<or> \<not> list_ex (\<lambda>n. did n = d \<and> verification_score (trust n) = 1) db \<Longrightarrow>
     reachable (snd (RecordVerificationOutcome now db d passed latencyMs))"
| lock: "reachable db \<Longrightarrow> reachable (snd (LockHCForEscrow drv now db d amount))"
| release: "reachable db \<Longrightarrow> reachable (snd (ReleaseHC now db d amount))"
| refund: "reachable db \<Longrightarrow> reachable (snd (RefundHC now db d amount))"
| credit: "reachable db \<Longrightarrow> reachable (snd (CreditHC now db d amount))"

subsection \<open>Example identities\<close>

text \<open>
  A driver that hands date-times over as \<open>neo4j.LocalDateTime\<close> and amounts whose printed
  text is their decimal (true of the integers used with it), and graphs built by the
  service's own calls: Alice alone, Alice with credit, Alice who spawned Bob who spawned
  Carol, and Alice after runs of failed verification outcomes.
\<close>

definition plain_driver :: driver where
  "plain_driver = \<lparr>local_datetime = Some, decimal_text = (\<lambda>x. x)\<rparr>"

definition alice :: did where "alice = ''did:key:zAlice''"

definition bob :: did where "bob = ''did:key:zBob''"

definition carol :: did where "carol = ''did:key:zCarol''"

definition alice_node :: IdentityNode where
  "alice_node = \<lparr>did = alice, entity_type = ''human'', created_at = 0, public_key = [],
      spawned_by = None, trust = initial_trust 0, wallet = initial_wallet 0 0\<rparr>"

definition fresh_graph :: graph where
  "fresh_graph = snd (Service_CreateIdentity 0 [] alice [] EntityTypeHuman None)"

definition funded_graph :: graph where
  "funded_graph = snd (CreditHC 1 fresh_graph alice 10)"

definition stale_update :: TrustScore where
  "stale_update =
     \<lparr>Score = 500,
      Components = \<lparr>VerificationScore = 200, DisputePenalty = 0, SLAScore = 100,
                    NetworkScore = 200\<rparr>,
      VerifiedOutcomes = 0, DisputeRate = 0, Version = 0\<rparr>"

definition alice_trust :: TrustScore where
  "alice_trust =
     \<lparr>Score = 500,
      Components = \<lparr>VerificationScore = 200, DisputePenalty = 0, SLAScore = 100,
                    NetworkScore = 200\<rparr>,
      VerifiedOutcomes = 0, DisputeRate = 0, Version = 1\<rparr>"

definition bob_read :: TrustScore where
  "bob_read =
     \<lparr>Score = 150,
      Components = \<lparr>VerificationScore = 60, DisputePenalty = 0, SLAScore = 100,
                    NetworkScore = 60\<rparr>,
      VerifiedOutcomes = 0, DisputeRate = 0, Version = 2\<rparr>"

definition spawned_graph :: graph where
  "spawned_graph = snd (Service_CreateIdentity 5 fresh_graph bob [] EntityTypeAgent (Some alice))"

definition bob_trust :: TrustNode where
  "bob_trust =
     \<lparr>score = 150, verification_score = 60, dispute_penalty = 0, sla_score = 100,
      network_score = 60, t_updated_at = 5, verified_outcomes = 0, dispute_rate = 0,
      t_version = 2\<rparr>"

definition bob_node :: IdentityNode where
  "bob_node = \<lparr>did = bob, entity_type = ''agent'', created_at = 5, public_key = [],
      spawned_by = Some alice, trust = bob_trust, wallet = initial_wallet 5 5\<rparr>"

definition carol_node :: IdentityNode where
  "carol_node = \<lparr>did = carol, entity_type = ''agent'', created_at = 9, public_key = [],
      spawned_by = Some bob,
      trust = \<lparr>score = 100, verification_score = 18, dispute_penalty = 0, sla_score = 100,
                network_score = 18, t_updated_at = 9, verified_outcomes = 0, dispute_rate = 0,
                t_version = 2\<rparr>,
      wallet = initial_wallet 9 9\<rparr>"

definition family_graph :: graph where
  "family_graph = snd (Service_CreateIdentity 9 spawned_graph carol [] EntityTypeAgent (Some bob))"

definition credited_graph :: graph where
  "credited_graph = snd (CreditHC 1 fresh_graph alice (9 / 10))"

definition escrow_graph :: graph where
  "escrow_graph = snd (LockHC 2 credited_graph alice (2 / 10) 2)"

definition refunded_graph :: graph where
  "refunded_graph = snd (RefundHC 3 escrow_graph alice (2 / 10))"

definition big_graph :: graph where
  "big_graph = snd (CreditHC 1 fresh_graph alice 10000000000000002)"

definition worn_graph :: graph where
  "worn_graph =
     fold (\<lambda>(passed, latencyMs) g. snd (RecordVerificationOutcome 1 g alice passed latencyMs))
       (replicate 100 (False, 0) @ replicate 64 (False, 3000)) fresh_graph"

definition worn_trust :: TrustScore where
  "worn_trust =
     \<lparr>Score = 336,
      Components = \<lparr>VerificationScore = 0, DisputePenalty = 0, SLAScore = 136,
                    NetworkScore = 200\<rparr>,
      VerifiedOutcomes = 164, DisputeRate = 0, Version = 165\<rparr>"

definition last_point_graph :: graph where
  "last_point_graph =
     fold (\<lambda>(passed, latencyMs) g. snd (RecordVerificationOutcome 1 g alice passed latencyMs))
       (replicate 100 (False, 0) @ [(True, 0)]) fresh_graph"

section \<open>Properties\<close>

subsection \<open>Rounding to binary64 is monotone\<close>

lemma bitlen_bounds:
  "0 < n \<Longrightarrow> 1 \<le> bitlen n \<and> 2 ^ nat (bitlen n - 1) \<le> n \<and> n < 2 ^ nat (bitlen n)"
proof (induction n rule: bitlen.induct)
  case (1 n)
  show ?case
  proof (cases "n div 2 = 0")
    case True
    with "1.prems" have n1: "n = 1" by presburger
    have "bitlen n = 1"
      by (simp add: n1 bitlen.simps [of 1] bitlen.simps [of 0])
    then show ?thesis using n1 by simp
  next
    case False
    with "1.prems" have m: "0 < n div 2" by presburger
    from "1.IH" "1.prems" m
    have ih: "1 \<le> bitlen (n div 2)" "2 ^ nat (bitlen (n div 2) - 1) \<le> n div 2"
      "n div 2 < 2 ^ nat (bitlen (n div 2))"
      by auto
    have b: "bitlen n = 1 + bitlen (n div 2)"
      using "1.prems" by (subst bitlen.simps) simp
    have e1: "nat (bitlen n - 1) = Suc (nat (bitlen (n div 2) - 1))"
      using b ih(1) by simp
    have e2: "nat (bitlen n) = Suc (nat (bitlen (n div 2)))"
      using b ih(1) by simp
    have "2 * 2 ^ nat (bitlen (n div 2) - 1) \<le> n"
      using ih(2) by presburger
    moreover have "n < 2 * 2 ^ nat (bitlen (n div 2))"
      using ih(3) by presburger
    ultimately show ?thesis using b ih(1) e1 e2 by simp
  qed
qed

lemma round_half_even_of_int [simp]: "round_half_even (of_int n) = n"
  by (simp add: round_half_even_def)

lemma round_half_even_mono: "x \<le> y \<Longrightarrow> round_half_even x \<le> round_half_even y"
proof -
  assume xy: "x \<le> y"
  have fl: "\<lfloor>x\<rfloor> \<le> \<lfloor>y\<rfloor>" using xy by (rule floor_mono)
  have lo: "\<And>z. \<lfloor>z\<rfloor> \<le> round_half_even z"
    by (simp add: round_half_even_def Let_def)
  have hi: "\<And>z. round_half_even z \<le> \<lfloor>z\<rfloor> + 1"
    by (simp add: round_half_even_def Let_def)
  show ?thesis
  proof (cases "\<lfloor>x\<rfloor> = \<lfloor>y\<rfloor>")
    case True
    then show ?thesis using xy
      by (auto simp: round_half_even_def Let_def)
  next
    case False
    with fl have "\<lfloor>x\<rfloor> + 1 \<le> \<lfloor>y\<rfloor>" by simp
    with lo [of y] hi [of x] show ?thesis by linarith
  qed
qed


lemma pow_nat_powi: "0 \<le> k \<Longrightarrow> (2::rat) ^ nat k = 2 powi k"
  by (simp add: power_int_def)

lemma ilog2_bounds:
  assumes "0 < x"
  shows "2 powi (ilog2 x) \<le> x \<and> x < 2 powi (ilog2 x + 1)"
proof -
  obtain p q where pq: "quotient_of x = (p, q)" by (cases "quotient_of x")
  have q: "0 < q" using pq by (rule quotient_of_denom_pos)
  have x: "x = of_int p / of_int q" using pq by (rule quotient_of_div)
  have p: "0 < p" using assms q x by (simp add: zero_less_divide_iff)
  note bp = bitlen_bounds [OF p] and bq = bitlen_bounds [OF q]
  define k where "k = bitlen p - bitlen q"
  have plo: "(2::rat) powi (bitlen p - 1) \<le> of_int p"
  proof -
    have "(of_int (2 ^ nat (bitlen p - 1)) :: rat) \<le> of_int p"
      using bp by (simp only: of_int_le_iff)
    then show ?thesis using bp by (simp add: pow_nat_powi [symmetric])
  qed
  have phi: "of_int p < (2::rat) powi (bitlen p)"
  proof -
    have "(of_int p :: rat) < of_int (2 ^ nat (bitlen p))"
      using bp by (simp only: of_int_less_iff)
    then show ?thesis using bp by (simp add: pow_nat_powi [symmetric])
  qed
  have qlo: "(2::rat) powi (bitlen q - 1) \<le> of_int q"
  proof -
    have "(of_int (2 ^ nat (bitlen q - 1)) :: rat) \<le> of_int q"
      using bq by (simp only: of_int_le_iff)
    then show ?thesis using bq by (simp add: pow_nat_powi [symmetric])
  qed
  have qhi: "of_int q < (2::rat) powi (bitlen q)"
  proof -
    have "(of_int q :: rat) < of_int (2 ^ nat (bitlen q))"
      using bq by (simp only: of_int_less_iff)
    then show ?thesis using bq by (simp add: pow_nat_powi [symmetric])
  qed
  have qpos: "(0::rat) < of_int q" using q by simp
  have lower: "2 powi (k - 1) \<le> x"
  proof -
    have "2 powi (k - 1) * of_int q \<le> (2::rat) powi (k - 1) * 2 powi (bitlen q)"
      using qhi by (intro mult_left_mono) auto
    also have "\<dots> = 2 powi (bitlen p - 1)"
      by (simp add: k_def power_int_add [symmetric])
    also have "\<dots> \<le> of_int p" by (rule plo)
    finally show ?thesis using qpos by (simp add: x pos_le_divide_eq)
  qed
  have upper: "x < 2 powi (k + 1)"
  proof -
    have "of_int p < (2::rat) powi (bitlen p)" by (rule phi)
    also have "\<dots> = 2 powi (k + 1) * 2 powi (bitlen q - 1)"
      by (simp add: k_def power_int_add [symmetric])
    also have "\<dots> \<le> 2 powi (k + 1) * of_int q"
      using qlo by (intro mult_left_mono) auto
    finally show ?thesis using qpos by (simp add: x pos_divide_less_eq)
  qed
  have e: "ilog2 x = (if 2 powi k \<le> x then k else k - 1)"
    by (simp add: ilog2_def pq k_def Let_def)
  show ?thesis
  proof (cases "2 powi k \<le> x")
    case True
    then show ?thesis using e upper by simp
  next
    case False
    then show ?thesis using e lower by simp
  qed
qed


lemma powi2_less_cancel: "(2::rat) powi a < 2 powi b \<Longrightarrow> a < b"
proof (rule ccontr)
  assume lt: "(2::rat) powi a < 2 powi b" and "\<not> a < b"
  then have "b \<le> a" by simp
  then have "(2::rat) powi b \<le> 2 powi a" by (rule power_int_increasing) simp
  with lt show False by simp
qed

lemma ilog2_mono:
  assumes "0 < x" "x \<le> y"
  shows "ilog2 x \<le> ilog2 y"
proof -
  have y: "0 < y" using assms by simp
  have "2 powi (ilog2 x) \<le> x" using ilog2_bounds [OF assms(1)] by simp
  also have "x \<le> y" by fact
  also have "y < 2 powi (ilog2 y + 1)" using ilog2_bounds [OF y] by simp
  finally have "ilog2 x < ilog2 y + 1" by (rule powi2_less_cancel)
  then show ?thesis by simp
qed

lemma quantum_upper:
  assumes "x \<le> 2 powi (e + 1)"
  shows "of_int (round_half_even (x / 2 powi (e - 52))) * 2 powi (e - 52) \<le> (2::rat) powi (e + 1)"
proof -
  have q: "(0::rat) < 2 powi (e - 52)" by simp
  have "x / 2 powi (e - 52) \<le> 2 powi (e + 1) / 2 powi (e - 52)"
    using assms q by (simp add: divide_right_mono)
  also have "\<dots> = 2 powi 53"
    by (simp add: power_int_diff [symmetric])
  also have "\<dots> = of_int (2 ^ 53)"
    by (simp add: power_int_def)
  finally have "round_half_even (x / 2 powi (e - 52)) \<le> round_half_even (of_int (2 ^ 53))"
    by (rule round_half_even_mono)
  then have "round_half_even (x / 2 powi (e - 52)) \<le> 2 ^ 53"
    by (simp only: round_half_even_of_int)
  then have "(of_int (round_half_even (x / 2 powi (e - 52))) :: rat) \<le> of_int (2 ^ 53)"
    by (simp only: of_int_le_iff)
  then have "of_int (round_half_even (x / 2 powi (e - 52))) * 2 powi (e - 52)
      \<le> (of_int (2 ^ 53) :: rat) * 2 powi (e - 52)"
    using q by (simp only: mult_le_cancel_right_pos)
  also have "(of_int (2 ^ 53) :: rat) = 2 powi 53" by (simp add: power_int_def)
  also have "(2::rat) powi 53 * 2 powi (e - 52) = 2 powi (e + 1)"
    using power_int_add [of "2::rat" 53 "e - 52"] by (simp add: ac_simps)
  finally show ?thesis .
qed

lemma quantum_lower:
  assumes "2 powi e \<le> y"
  shows "(2::rat) powi e \<le> of_int (round_half_even (y / 2 powi (e - 52))) * 2 powi (e - 52)"
proof -
  have q: "(0::rat) < 2 powi (e - 52)" by simp
  have "(of_int (2 ^ 52) :: rat) = 2 powi 52" by (simp add: power_int_def)
  also have "\<dots> = 2 powi e / 2 powi (e - 52)"
    by (simp add: power_int_diff [symmetric])
  also have "\<dots> \<le> y / 2 powi (e - 52)"
    using assms q by (simp add: divide_right_mono)
  finally have "round_half_even (of_int (2 ^ 52)) \<le> round_half_even (y / 2 powi (e - 52))"
    by (rule round_half_even_mono)
  then have "2 ^ 52 \<le> round_half_even (y / 2 powi (e - 52))"
    by (simp only: round_half_even_of_int)
  then have "(of_int (2 ^ 52) :: rat) \<le> of_int (round_half_even (y / 2 powi (e - 52)))"
    by (simp only: of_int_le_iff)
  then have A: "(of_int (2 ^ 52) :: rat) * 2 powi (e - 52)
      \<le> of_int (round_half_even (y / 2 powi (e - 52))) * 2 powi (e - 52)"
    using q by (simp only: mult_le_cancel_right_pos)
  have B: "(of_int (2 ^ 52) :: rat) * 2 powi (e - 52) = 2 powi e"
    using power_int_add [of "2::rat" 52 "e - 52"] by simp
  show ?thesis using A unfolding B .
qed

lemma f64_pos_mono:
  assumes "0 < x" "x \<le> y"
  shows "f64_pos x \<le> f64_pos y"
proof -
  define ex where "ex = max (ilog2 x) (- 1022)"
  define ey where "ey = max (ilog2 y) (- 1022)"
  have y: "0 < y" using assms by simp
  have fx: "f64_pos x = of_int (round_half_even (x / 2 powi (ex - 52))) * 2 powi (ex - 52)"
    by (simp add: f64_pos_def Let_def ex_def)
  have fy: "f64_pos y = of_int (round_half_even (y / 2 powi (ey - 52))) * 2 powi (ey - 52)"
    by (simp add: f64_pos_def Let_def ey_def)
  have le: "ex \<le> ey"
    using ilog2_mono [OF assms] by (simp add: ex_def ey_def)
  show ?thesis
  proof (cases "ex = ey")
    case True
    have q: "(0::rat) < 2 powi (ey - 52)" by simp
    have "x / 2 powi (ey - 52) \<le> y / 2 powi (ey - 52)"
      using assms(2) q by (simp add: divide_right_mono)
    then have "round_half_even (x / 2 powi (ey - 52)) \<le> round_half_even (y / 2 powi (ey - 52))"
      by (rule round_half_even_mono)
    then have "(of_int (round_half_even (x / 2 powi (ey - 52))) :: rat)
        \<le> of_int (round_half_even (y / 2 powi (ey - 52)))"
      by (simp only: of_int_le_iff)
    then show ?thesis
      unfolding fx fy True using q by (simp only: mult_le_cancel_right_pos)
  next
    case False
    with le have lt: "ex + 1 \<le> ey" by simp
    then have eyy: "ey = ilog2 y" by (auto simp: ey_def ex_def max_def split: if_splits)
    have "x < 2 powi (ilog2 x + 1)" using ilog2_bounds [OF assms(1)] by simp
    also have "\<dots> \<le> 2 powi (ex + 1)"
      by (rule power_int_increasing) (simp_all add: ex_def)
    finally have "x \<le> 2 powi (ex + 1)" by simp
    then have "f64_pos x \<le> 2 powi (ex + 1)"
      unfolding fx by (rule quantum_upper)
    also have "(2::rat) powi (ex + 1) \<le> 2 powi ey"
      using lt by (rule power_int_increasing) simp
    also have "\<dots> \<le> f64_pos y"
      unfolding fy using ilog2_bounds [OF y] eyy by (intro quantum_lower) simp
    finally show ?thesis .
  qed
qed

lemma f64_pos_nonneg: "0 < x \<Longrightarrow> 0 \<le> f64_pos x"
proof -
  assume "0 < x"
  then have "0 \<le> x / 2 powi (max (ilog2 x) (- 1022) - 52)" by simp
  then have "round_half_even 0 \<le> round_half_even (x / 2 powi (max (ilog2 x) (- 1022) - 52))"
    by (rule round_half_even_mono)
  then have "0 \<le> round_half_even (x / 2 powi (max (ilog2 x) (- 1022) - 52))"
    using round_half_even_of_int [of 0] by simp
  then show ?thesis by (simp add: f64_pos_def Let_def)
qed

lemma f64_mono: "0 \<le> x \<Longrightarrow> x \<le> y \<Longrightarrow> f64 x \<le> f64 y"
  using f64_pos_mono [of x y] f64_pos_nonneg [of y] by (auto simp: f64_def)


subsection \<open>Trust inheritance bound\<close>

lemma f64_one: "f64 1 = 1"
  by code_simp

lemma f64_zero: "f64 0 = 0"
  by (simp add: f64_def)

lemma InheritedTrust_facts:
  "0 \<le> InheritedTrust" "f64 InheritedTrust = InheritedTrust" "InheritedTrust \<le> 3 / 10"
  by code_simp+

lemma MinInheritedTau_facts: "1 / 10 \<le> MinInheritedTau" "MinInheritedTau \<le> 3 / 10"
  by code_simp+

lemma Tau_range:
  assumes "0 \<le> Score t" "Score t \<le> 1000"
  shows "0 \<le> Tau t \<and> Tau t \<le> 1"
proof -
  have "f64 0 \<le> f64 (of_int (Score t) / of_int MaxScore)"
    using assms by (intro f64_mono) (simp_all add: MaxScore_def)
  moreover have "f64 (of_int (Score t) / of_int MaxScore) \<le> f64 1"
    using assms by (intro f64_mono) (simp_all add: MaxScore_def)
  ultimately show ?thesis by (simp only: Tau_def f64_one f64_zero)
qed

lemma inherited_tau_bounds:
  assumes "0 \<le> Score t" "Score t \<le> 1000"
  shows "1 / 10 \<le> InheritedTauForChild t \<and> InheritedTauForChild t \<le> 3 / 10"
proof -
  note tau = Tau_range [OF assms]
  have "Tau t * InheritedTrust \<le> 1 * InheritedTrust"
    using tau InheritedTrust_facts(1) by (intro mult_right_mono) simp_all
  moreover have "0 \<le> Tau t * InheritedTrust"
    using tau InheritedTrust_facts(1) by simp
  ultimately have "f64 (Tau t * InheritedTrust) \<le> f64 InheritedTrust"
    by (intro f64_mono) simp_all
  then have up: "f64 (Tau t * InheritedTrust) \<le> 3 / 10"
    using InheritedTrust_facts by simp
  show ?thesis
    using up MinInheritedTau_facts by (simp add: InheritedTauForChild_def Let_def)
qed

lemma InheritedTau_range:
  assumes "0 \<le> Score t" "Score t \<le> 1000"
  shows "MinInheritedTau \<le> InheritedTauForChild t \<and> InheritedTauForChild t \<le> InheritedTrust"
proof -
  note tau = Tau_range [OF assms]
  have "Tau t * InheritedTrust \<le> 1 * InheritedTrust"
    using tau InheritedTrust_facts(1) by (intro mult_right_mono) simp_all
  moreover have "0 \<le> Tau t * InheritedTrust"
    using tau InheritedTrust_facts(1) by simp
  ultimately have "f64 (Tau t * InheritedTrust) \<le> f64 InheritedTrust"
    by (intro f64_mono) simp_all
  then have up: "f64 (Tau t * InheritedTrust) \<le> InheritedTrust"
    using InheritedTrust_facts by simp
  have "MinInheritedTau \<le> InheritedTrust" by code_simp
  then show ?thesis
    using up by (simp add: InheritedTauForChild_def Let_def)
qed

lemma uint32_of_float_between:
  assumes "of_int a \<le> x" "x \<le> of_int b" "0 \<le> a" "b < 2 ^ 32"
  shows "a \<le> uint32_of_float x \<and> uint32_of_float x \<le> b"
proof -
  have x0: "0 \<le> x" using assms(1,3) by (meson of_int_0_le_iff order_trans)
  have lo: "a \<le> \<lfloor>x\<rfloor>" using assms(1) by (simp add: le_floor_iff)
  have hi: "\<lfloor>x\<rfloor> \<le> b" using assms(2) by (simp add: floor_le_iff)
  have "\<lfloor>x\<rfloor> mod 2 ^ 32 = \<lfloor>x\<rfloor>"
    using lo hi assms(3,4) by (intro mod_pos_pos_trivial) linarith+
  then show ?thesis using lo hi x0 by (simp add: uint32_of_float_def trunc_def)
qed

lemma scaled_facts:
  "f64 (MinInheritedTau * 1000) = 100" "f64 (InheritedTrust * 1000) = 300"
  "f64 (400 * InheritedTrust) = 120" "f64 (200 * InheritedTrust) = 60"
  "0 \<le> MinInheritedTau"
  by code_simp+

lemma inherited_score_range:
  assumes "0 \<le> Score t" "Score t \<le> 1000"
  shows "100 \<le> uint32_of_float (f64 (InheritedTauForChild t * 1000))
       \<and> uint32_of_float (f64 (InheritedTauForChild t * 1000)) \<le> 300"
proof -
  note r = InheritedTau_range [OF assms]
  have "f64 (MinInheritedTau * 1000) \<le> f64 (InheritedTauForChild t * 1000)"
    using r scaled_facts(5) by (intro f64_mono) simp_all
  moreover have "f64 (InheritedTauForChild t * 1000) \<le> f64 (InheritedTrust * 1000)"
    using r scaled_facts(5) by (intro f64_mono) simp_all
  ultimately have "of_int 100 \<le> f64 (InheritedTauForChild t * 1000)"
    "f64 (InheritedTauForChild t * 1000) \<le> of_int 300"
    by (simp_all add: scaled_facts)
  then show ?thesis by (rule uint32_of_float_between) simp_all
qed

lemma inherited_component_range:
  assumes "0 \<le> v" "v \<le> c" "f64 (of_int c * InheritedTrust) = of_int b" "0 \<le> b" "b < 2 ^ 32"
  shows "0 \<le> uint32_of_float (f64 (of_int v * InheritedTrust))
       \<and> uint32_of_float (f64 (of_int v * InheritedTrust)) \<le> b"
proof -
  have "f64 0 \<le> f64 (of_int v * InheritedTrust)"
    using assms(1) InheritedTrust_facts(1) by (intro f64_mono) simp_all
  moreover have "f64 (of_int v * InheritedTrust) \<le> f64 (of_int c * InheritedTrust)"
    using assms(1,2) InheritedTrust_facts(1) by (intro f64_mono mult_right_mono) simp_all
  ultimately have "of_int 0 \<le> f64 (of_int v * InheritedTrust)"
    "f64 (of_int v * InheritedTrust) \<le> of_int b"
    by (simp_all add: f64_zero assms(3))
  then show ?thesis using assms(4,5) by (intro uint32_of_float_between) simp_all
qed

lemma child_tau_facts: "1 / 10 \<le> f64 (100 / 1000)" "f64 (300 / 1000) \<le> 3 / 10"
  by code_simp+

subsection \<open>Rows of a query\<close>

lemma match_identity_did: "match_identity db d = Some n \<Longrightarrow> did n = d"
  by (induction db) (auto simp: match_identity_def split: if_splits)

lemma match_identity_Cons:
  "match_identity (m # db) d = (if did m = d then Some m else match_identity db d)"
  by (simp add: match_identity_def)

lemma match_identity_in_graph:
  "match_identity db d = Some n \<Longrightarrow> list_ex (\<lambda>m. did m = d) db"
  by (induction db) (auto simp: match_identity_def split: if_splits)

lemma match_identity_cypher_set:
  assumes "\<And>m. did (upd m) = did m"
  shows "match_identity (cypher_set hit upd db) d =
         map_option (\<lambda>m. if hit m then upd m else m) (match_identity db d)"
  by (induction db) (simp_all add: match_identity_def cypher_set_def assms)

lemma no_rows_without_did:
  "d \<notin> did ` set db \<Longrightarrow> cypher_rows (\<lambda>m. did m = d \<and> P m) db = []"
  by (induction db) (auto simp: cypher_rows_def)

lemma cypher_rows_unique:
  assumes "unique_dids db" "match_identity db d = Some n"
  shows "cypher_rows (\<lambda>m. did m = d \<and> P m) db = (if P n then [n] else [])"
  using assms
proof (induction db)
  case Nil
  then show ?case by (simp add: match_identity_def)
next
  case (Cons m db)
  show ?case
  proof (cases "did m = d")
    case True
    with Cons.prems have n: "n = m" and "d \<notin> did ` set db"
      by (auto simp: match_identity_def unique_dids_def)
    then have "cypher_rows (\<lambda>m. did m = d \<and> P m) db = []"
      by (simp add: no_rows_without_did)
    then show ?thesis using True n by (simp add: cypher_rows_def)
  next
    case False
    with Cons.prems have "unique_dids db" "match_identity db d = Some n"
      by (auto simp: match_identity_def unique_dids_def)
    then have "cypher_rows (\<lambda>m. did m = d \<and> P m) db = (if P n then [n] else [])"
      by (rule Cons.IH)
    then show ?thesis using False by (simp add: cypher_rows_def)
  qed
qed

lemma match_identity_mem: "match_identity db d = Some n \<Longrightarrow> n \<in> set db"
  by (induction db) (auto simp: match_identity_def split: if_splits)

lemma cypher_set_keeps:
  assumes "list_all (\<lambda>n. P (trust n)) db"
    and "\<And>n. hit n \<Longrightarrow> P (trust n) \<Longrightarrow> P (trust (upd n))"
  shows "list_all (\<lambda>n. P (trust n)) (cypher_set hit upd db)"
  using assms by (induction db) (auto simp: cypher_set_def)

subsection \<open>The example graphs, evaluated\<close>

lemma fresh_graph_eq: "fresh_graph = [alice_node]"
  by (simp add: fresh_graph_def Service_CreateIdentity_def CreateIdentity_def Let_def
      alice_node_def)

lemma funded_graph_eq:
  "funded_graph = [alice_node\<lparr>wallet := \<lparr>available = 10, locked = 0, expires_at = 1 + P30D,
      w_version = 2, w_updated_at = 1\<rparr>\<rparr>]"
  unfolding funded_graph_def fresh_graph_eq by code_simp

lemma spawned_graph_eq: "spawned_graph = [bob_node, alice_node]"
  unfolding spawned_graph_def fresh_graph_eq by code_simp

lemma family_graph_eq: "family_graph = [carol_node, bob_node, alice_node]"
  unfolding family_graph_def spawned_graph_eq by code_simp

lemma credited_graph_eq:
  "credited_graph = [alice_node\<lparr>wallet := \<lparr>available = f64 (9 / 10), locked = 0,
      expires_at = 1 + P30D, w_version = 2, w_updated_at = 1\<rparr>\<rparr>]"
  unfolding credited_graph_def fresh_graph_eq by code_simp

lemma escrow_graph_eq:
  "escrow_graph = [alice_node\<lparr>wallet := \<lparr>available = f64 (7 / 10), locked = f64 (2 / 10),
      expires_at = 1 + P30D, w_version = 3, w_updated_at = 2\<rparr>\<rparr>]"
  unfolding escrow_graph_def credited_graph_eq by code_simp

lemma refunded_graph_eq:
  "refunded_graph = [alice_node\<lparr>wallet := \<lparr>available = f64 (9 / 10) - 1 / 2 ^ 53, locked = 0,
      expires_at = 1 + P30D, w_version = 4, w_updated_at = 3\<rparr>\<rparr>]"
  unfolding refunded_graph_def escrow_graph_eq by code_simp

lemma big_graph_eq:
  "big_graph = [alice_node\<lparr>wallet := \<lparr>available = 10000000000000002, locked = 0,
      expires_at = 1 + P30D, w_version = 2, w_updated_at = 1\<rparr>\<rparr>]"
  unfolding big_graph_def fresh_graph_eq by code_simp

lemma worn_graph_eq:
  "worn_graph = [alice_node\<lparr>trust :=
      \<lparr>score = 336, verification_score = 0, dispute_penalty = 0, sla_score = 136,
       network_score = 200, t_updated_at = 1, verified_outcomes = 164, dispute_rate = 0,
       t_version = 165\<rparr>\<rparr>]"
  unfolding worn_graph_def fresh_graph_eq by code_simp

lemma last_point_graph_eq:
  "last_point_graph = [alice_node\<lparr>trust :=
      \<lparr>score = 401, verification_score = 1, dispute_penalty = 0, sla_score = 200,
       network_score = 200, t_updated_at = 1, verified_outcomes = 101, dispute_rate = 0,
       t_version = 102\<rparr>\<rparr>]"
  unfolding last_point_graph_def fresh_graph_eq by code_simp

subsection \<open>Version counters\<close>

text \<open>
  C3, as the code has it: \<open>UpdateTrustScore\<close> and \<open>LockHC\<close> present the version the caller
  read, write only when the stored version equals it, then add exactly one to it, and
  otherwise return an error and leave the graph as it was (\<open>LockHC\<close> reports a stale
  version with the error it also uses for an insufficient balance or an expired wallet).
  \<open>ReleaseHC\<close>, \<open>RefundHC\<close>, \<open>CreditHC\<close> and \<open>RecordVerificationOutcome\<close> present no
  version and never return an error; whenever they write they add exactly one to the
  version.
\<close>

theorem optimistic_versions:
  assumes "unique_dids db" and "match_identity db d = Some n"
  shows
    "(if t_version (trust n) = Version update
      then fst (UpdateTrustScore now db d update) = Inr ()
           \<and> map_option t_version (stored_trust (snd (UpdateTrustScore now db d update)) d)
               = Some (t_version (trust n) + 1)
      else UpdateTrustScore now db d update = (Inl ConcurrentModification, db))
     \<and> (if w_version (wallet n) = version \<and> f64 amount \<le> available (wallet n)
            \<and> now < expires_at (wallet n)
         then fst (LockHC now db d amount version) = Inr ()
              \<and> map_option w_version (stored_wallet (snd (LockHC now db d amount version)) d)
                  = Some (w_version (wallet n) + 1)
         else LockHC now db d amount version
                = (Inl InsufficientBalanceOrConcurrentModification, db))
     \<and> fst (ReleaseHC now db d amount) = Inr ()
     \<and> map_option w_version (stored_wallet (snd (ReleaseHC now db d amount)) d)
         = Some (if f64 amount \<le> locked (wallet n) then w_version (wallet n) + 1
                 else w_version (wallet n))
     \<and> fst (RefundHC now db d amount) = Inr ()
     \<and> map_option w_version (stored_wallet (snd (RefundHC now db d amount)) d)
         = Some (if f64 amount \<le> locked (wallet n) then w_version (wallet n) + 1
                 else w_version (wallet n))
     \<and> fst (CreditHC now db d amount) = Inr ()
     \<and> map_option w_version (stored_wallet (snd (CreditHC now db d amount)) d)
         = Some (w_version (wallet n) + 1)
     \<and> fst (RecordVerificationOutcome now db d passed latencyMs) = Inr ()
     \<and> map_option t_version
           (stored_trust (snd (RecordVerificationOutcome now db d passed latencyMs)) d)
         = Some (t_version (trust n) + 1)"
proof -
  note rows = cypher_rows_unique [OF assms]
  have dn [simp]: "did n = d" using assms(2) by (rule match_identity_did)
  have uts: "if t_version (trust n) = Version update
      then fst (UpdateTrustScore now db d update) = Inr ()
           \<and> map_option t_version (stored_trust (snd (UpdateTrustScore now db d update)) d)
               = Some (t_version (trust n) + 1)
      else UpdateTrustScore now db d update = (Inl ConcurrentModification, db)"
    using assms(2)
    by (simp add: UpdateTrustScore_def Let_def rows stored_trust_def match_identity_cypher_set)
  have lock: "if w_version (wallet n) = version \<and> f64 amount \<le> available (wallet n)
            \<and> now < expires_at (wallet n)
         then fst (LockHC now db d amount version) = Inr ()
              \<and> map_option w_version (stored_wallet (snd (LockHC now db d amount version)) d)
                  = Some (w_version (wallet n) + 1)
         else LockHC now db d amount version
                = (Inl InsufficientBalanceOrConcurrentModification, db)"
    using assms(2)
    by (simp add: LockHC_def Let_def rows stored_wallet_def match_identity_cypher_set)
  have rel: "fst (ReleaseHC now db d amount) = Inr ()
     \<and> map_option w_version (stored_wallet (snd (ReleaseHC now db d amount)) d)
         = Some (if f64 amount \<le> locked (wallet n) then w_version (wallet n) + 1
                 else w_version (wallet n))"
    using assms(2)
    by (simp add: ReleaseHC_def Let_def stored_wallet_def match_identity_cypher_set)
  have ref: "fst (RefundHC now db d amount) = Inr ()
     \<and> map_option w_version (stored_wallet (snd (RefundHC now db d amount)) d)
         = Some (if f64 amount \<le> locked (wallet n) then w_version (wallet n) + 1
                 else w_version (wallet n))"
    using assms(2)
    by (simp add: RefundHC_def Let_def stored_wallet_def match_identity_cypher_set)
  have cre: "fst (CreditHC now db d amount) = Inr ()
     \<and> map_option w_version (stored_wallet (snd (CreditHC now db d amount)) d)
         = Some (w_version (wallet n) + 1)"
    using assms(2)
    by (simp add: CreditHC_def Let_def stored_wallet_def match_identity_cypher_set)
  have rvo: "fst (RecordVerificationOutcome now db d passed latencyMs) = Inr ()
     \<and> map_option t_version
           (stored_trust (snd (RecordVerificationOutcome now db d passed latencyMs)) d)
         = Some (t_version (trust n) + 1)"
    using assms(2)
    by (simp add: RecordVerificationOutcome_def record_outcome_def Let_def stored_trust_def
        match_identity_cypher_set)
  from uts lock rel ref cre rvo show ?thesis by (simp only: simp_thms)
qed

text \<open>
  C3 at Alice's fresh identity (trust and wallet at version 1): an update that presents
  version 0 and a lock that presents version 5 are rejected and change nothing; a lock
  and a credit that go through leave version 2.
\<close>

theorem optimistic_versions_witness:
  "unique_dids fresh_graph
   \<and> match_identity fresh_graph alice = Some alice_node
   \<and> UpdateTrustScore 7 fresh_graph alice stale_update = (Inl ConcurrentModification, fresh_graph)
   \<and> LockHC 7 fresh_graph alice 0 5 = (Inl InsufficientBalanceOrConcurrentModification, fresh_graph)
   \<and> fst (LockHC 7 fresh_graph alice 0 1) = Inr ()
   \<and> map_option w_version (stored_wallet (snd (LockHC 7 fresh_graph alice 0 1)) alice) = Some 2
   \<and> map_option w_version (stored_wallet (snd (CreditHC 7 fresh_graph alice 0)) alice) = Some 2"
proof -
  have u: "unique_dids fresh_graph"
    by (simp add: fresh_graph_eq unique_dids_def)
  have m: "match_identity fresh_graph alice = Some alice_node"
    by (simp add: fresh_graph_eq match_identity_def alice_node_def)
  have z: "f64 0 = 0" by (simp add: f64_def)
  have v: "t_version (trust alice_node) = 1" "w_version (wallet alice_node) = 1"
    "available (wallet alice_node) = 0" "expires_at (wallet alice_node) = P30D"
    by (simp_all add: alice_node_def initial_trust_def initial_wallet_def)
  show ?thesis
    using optimistic_versions
        [OF u m, where update = stale_update and version = 5 and amount = 0 and now = 7]
      optimistic_versions
        [OF u m, where update = stale_update and version = 1 and amount = 0 and now = 7] u m
    by (simp add: z v stale_update_def P30D_def)
qed

text \<open>
  C3 as stated fails for a credit: a caller reads Alice's wallet at version 1, another
  credit moves it to version 2, and the first caller's credit is then applied, not
  rejected: \<open>CreditHC\<close> takes no version.
\<close>

theorem stale_credit_applied:
  "map_option w_version (stored_wallet fresh_graph alice) = Some 1
   \<and> map_option w_version (stored_wallet funded_graph alice) = Some 2
   \<and> CreditHC 6 funded_graph alice 5 =
       (Inr (), [alice_node\<lparr>wallet := \<lparr>available = 15, locked = 0, expires_at = 6 + P30D,
          w_version = 3, w_updated_at = 6\<rparr>\<rparr>])
   \<and> CreditHC 6 funded_graph alice 5 \<noteq> (Inl ConcurrentModification, funded_graph)"
  unfolding funded_graph_eq fresh_graph_eq by code_simp

subsection \<open>Trust score\<close>

text \<open>
  C4 as stated fails for a spawned child: Bob, spawned by Alice at her initial score, is
  stored with score 150 beside components that sum to 220.
\<close>

theorem inherited_score_is_not_component_sum:
  "stored_trust spawned_graph bob = Some bob_trust
   \<and> score bob_trust = 150 \<and> spec_score bob_trust = 220"
  unfolding spawned_graph_eq by code_simp

subsection \<open>Scores of reachable graphs\<close>

lemma read_trust_in_range:
  assumes "GetTrustScore db d = Inr t" and "list_all (\<lambda>n. trust_in_range (trust n)) db"
  shows "0 \<le> Score t \<and> Score t \<le> 1000
       \<and> 0 \<le> VerificationScore (Components t) \<and> VerificationScore (Components t) \<le> 400
       \<and> DisputePenalty (Components t) = 0
       \<and> 0 \<le> SLAScore (Components t) \<and> SLAScore (Components t) \<le> 200
       \<and> 0 \<le> NetworkScore (Components t) \<and> NetworkScore (Components t) \<le> 200"
proof -
  obtain n where n: "match_identity db d = Some n"
    using assms(1) by (auto simp: GetTrustScore_def split: option.splits)
  then have "n \<in> set db" by (rule match_identity_mem)
  then have r: "trust_in_range (trust n)"
    using assms(2) by (simp add: list_all_iff)
  have t: "t = \<lparr>Score = uint32_of_int64 (score (trust n)),
               Components =
                 \<lparr>VerificationScore = uint32_of_int64 (verification_score (trust n)),
                  DisputePenalty = uint32_of_int64 (dispute_penalty (trust n)),
                  SLAScore = uint32_of_int64 (sla_score (trust n)),
                  NetworkScore = uint32_of_int64 (network_score (trust n))\<rparr>,
               VerifiedOutcomes = uint64_of_int64 (verified_outcomes (trust n)),
               DisputeRate = dispute_rate (trust n),
               Version = uint64_of_int64 (t_version (trust n))\<rparr>"
    using assms(1) n by (simp add: GetTrustScore_def)
  have small: "0 \<le> x \<Longrightarrow> x \<le> 1000 \<Longrightarrow> uint32_of_int64 x = x" for x
    by (simp add: uint32_of_int64_def)
  show ?thesis
    using r unfolding t trust_in_range_def by (simp add: small)
qed

lemma UpdateTrustScore_in_range:
  assumes "list_all (\<lambda>n. trust_in_range (trust n)) db"
    and "0 \<le> Score u" "Score u \<le> 1000"
    and "0 \<le> VerificationScore (Components u)" "VerificationScore (Components u) \<le> 400"
    and "DisputePenalty (Components u) = 0"
    and "0 \<le> SLAScore (Components u)" "SLAScore (Components u) \<le> 200"
    and "0 \<le> NetworkScore (Components u)" "NetworkScore (Components u) \<le> 200"
  shows "list_all (\<lambda>n. trust_in_range (trust n)) (snd (UpdateTrustScore now db d u))"
  using assms
  by (auto simp: UpdateTrustScore_def Let_def trust_in_range_def intro!: cypher_set_keeps)

lemma inheritParentTrust_in_range:
  assumes "list_all (\<lambda>n. trust_in_range (trust n)) db"
  shows "list_all (\<lambda>n. trust_in_range (trust n)) (snd (inheritParentTrust now db c p))"
proof (cases "GetTrustScore db p")
  case (Inl e)
  then show ?thesis using assms by (simp add: inheritParentTrust_def)
next
  case (Inr pt)
  note pr = read_trust_in_range [OF Inr assms]
  show ?thesis
  proof (cases "GetTrustScore db c")
    case (Inl e)
    then show ?thesis using assms Inr by (simp add: inheritParentTrust_def Let_def)
  next
    case (Inr ct)
    note cr = read_trust_in_range [OF Inr assms]
    have s: "100 \<le> uint32_of_float (f64 (InheritedTauForChild pt * 1000))
       \<and> uint32_of_float (f64 (InheritedTauForChild pt * 1000)) \<le> 300"
      using pr by (intro inherited_score_range) simp_all
    have v: "0 \<le> uint32_of_float (f64 (of_int (VerificationScore (Components pt)) * InheritedTrust))
       \<and> uint32_of_float (f64 (of_int (VerificationScore (Components pt)) * InheritedTrust)) \<le> 120"
      using pr scaled_facts(3)
      by (intro inherited_component_range [where c = 400]) simp_all
    have n: "0 \<le> uint32_of_float (f64 (of_int (NetworkScore (Components pt)) * InheritedTrust))
       \<and> uint32_of_float (f64 (of_int (NetworkScore (Components pt)) * InheritedTrust)) \<le> 60"
      using pr scaled_facts(4)
      by (intro inherited_component_range [where c = 200]) simp_all
    show ?thesis
      using \<open>GetTrustScore db p = Inr pt\<close> Inr s v n cr assms
      by (simp add: inheritParentTrust_def Let_def MaxScore_def UpdateTrustScore_in_range)
  qed
qed

lemma initial_trust_in_range: "trust_in_range (initial_trust created)"
  by (simp add: trust_in_range_def initial_trust_def)

lemma CreateIdentity_in_range:
  assumes "list_all (\<lambda>n. trust_in_range (trust n)) db"
  shows "list_all (\<lambda>n. trust_in_range (trust n)) (snd (CreateIdentity now db ident))"
  using assms by (simp add: CreateIdentity_def Let_def initial_trust_in_range)

lemma Service_CreateIdentity_in_range:
  assumes "list_all (\<lambda>n. trust_in_range (trust n)) db"
  shows "list_all (\<lambda>n. trust_in_range (trust n))
           (snd (Service_CreateIdentity now db newDID publicKey entityType parentDID))"
proof -
  define ident where "ident =
    \<lparr>DID = newDID, EntityTypeOf = entityType, ParentDID = parentDID, CreatedAt = now,
     PublicKey = publicKey\<rparr>"
  obtain r db' where c: "CreateIdentity now db ident = (r, db')"
    by (cases "CreateIdentity now db ident")
  have r': "list_all (\<lambda>n. trust_in_range (trust n)) db'"
    using CreateIdentity_in_range [OF assms, of now ident] c by simp
  then have "list_all (\<lambda>n. trust_in_range (trust n)) (snd (inheritParentTrust now db' newDID p))"
    for p
    by (rule inheritParentTrust_in_range)
  then show ?thesis
    using c r'
    by (auto simp: Service_CreateIdentity_def Let_def ident_def [symmetric]
        split: sum.splits option.splits)
qed

lemma record_outcome_in_range:
  assumes "trust_in_range t" "passed \<or> verification_score t \<noteq> 1"
  shows "trust_in_range (record_outcome now passed latencyMs t)"
  using assms by (auto simp: trust_in_range_def record_outcome_def Let_def)

lemma RecordVerificationOutcome_in_range:
  assumes "list_all (\<lambda>n. trust_in_range (trust n)) db"
    and "passed \<or> \<not> list_ex (\<lambda>n. did n = d \<and> verification_score (trust n) = 1) db"
  shows "list_all (\<lambda>n. trust_in_range (trust n))
           (snd (RecordVerificationOutcome now db d passed latencyMs))"
proof -
  have "trust_in_range (record_outcome now passed latencyMs (trust n))"
    if "n \<in> set db" "did n = d" for n
  proof -
    have "trust_in_range (trust n)" using assms(1) that(1) by (simp add: list_all_iff)
    moreover have "passed \<or> verification_score (trust n) \<noteq> 1"
      using assms(2) that by (auto simp: list_ex_iff)
    ultimately show ?thesis by (rule record_outcome_in_range)
  qed
  then show ?thesis
    using assms(1)
    by (auto simp: RecordVerificationOutcome_def cypher_set_def list_all_iff)
qed

lemma wallet_writes_in_range:
  assumes "list_all (\<lambda>n. trust_in_range (trust n)) db"
  shows "list_all (\<lambda>n. trust_in_range (trust n)) (snd (LockHC now db d amount version))"
    and "list_all (\<lambda>n. trust_in_range (trust n)) (snd (LockHCForEscrow drv now db d amount))"
    and "list_all (\<lambda>n. trust_in_range (trust n)) (snd (ReleaseHC now db d amount))"
    and "list_all (\<lambda>n. trust_in_range (trust n)) (snd (RefundHC now db d amount))"
    and "list_all (\<lambda>n. trust_in_range (trust n)) (snd (CreditHC now db d amount))"
proof -
  show l: "list_all (\<lambda>n. trust_in_range (trust n)) (snd (LockHC now db d amount version))"
    for version
    using assms by (auto simp: LockHC_def Let_def intro!: cypher_set_keeps)
  show "list_all (\<lambda>n. trust_in_range (trust n)) (snd (LockHCForEscrow drv now db d amount))"
    using assms l by (auto simp: LockHCForEscrow_def split: sum.splits)
  show "list_all (\<lambda>n. trust_in_range (trust n)) (snd (ReleaseHC now db d amount))"
    using assms by (auto simp: ReleaseHC_def Let_def intro!: cypher_set_keeps)
  show "list_all (\<lambda>n. trust_in_range (trust n)) (snd (RefundHC now db d amount))"
    using assms by (auto simp: RefundHC_def Let_def intro!: cypher_set_keeps)
  show "list_all (\<lambda>n. trust_in_range (trust n)) (snd (CreditHC now db d amount))"
    using assms by (auto simp: CreditHC_def Let_def intro!: cypher_set_keeps)
qed

lemma reachable_in_range:
  "reachable db \<Longrightarrow> list_all (\<lambda>n. trust_in_range (trust n)) db"
proof (induction rule: reachable.induct)
  case empty
  show ?case by simp
next
  case (create db now newDID publicKey entityType parentDID)
  then show ?case by (simp add: Service_CreateIdentity_in_range)
next
  case (outcome db passed d now latencyMs)
  then show ?case by (simp add: RecordVerificationOutcome_in_range)
next
  case (lock db drv now d amount)
  then show ?case by (simp add: wallet_writes_in_range)
next
  case (release db now d amount)
  then show ?case by (simp add: wallet_writes_in_range)
next
  case (refund db now d amount)
  then show ?case by (simp add: wallet_writes_in_range)
next
  case (credit db now d amount)
  then show ?case by (simp add: wallet_writes_in_range)
qed

lemma stored_trust_after_outcome:
  assumes "match_identity db d = Some n"
  shows "stored_trust (snd (RecordVerificationOutcome now db d passed latencyMs)) d
      = Some (record_outcome now passed latencyMs (trust n))"
  using assms match_identity_did [OF assms]
  by (simp add: RecordVerificationOutcome_def stored_trust_def match_identity_cypher_set)

text \<open>
  C4, with the score written by the inheritance excepted: in every graph reachable by the
  service's operations every stored score is within \<open>[0, 1000]\<close>; the trust score stored
  at creation has \<open>score = verification + sla + network - dispute_penalty\<close> clamped to
  \<open>[0, 1000]\<close>, and so has the trust score that \<open>RecordVerificationOutcome\<close> stores, which
  recomputes the score from the components it has just written. A failed outcome at a
  verification score of 1 is not covered.
\<close>

theorem reachable_score_clamped:
  assumes "reachable db"
  shows "list_all (\<lambda>n. 0 \<le> score (trust n) \<and> score (trust n) \<le> 1000) db
     \<and> score (initial_trust created) = spec_score (initial_trust created)
     \<and> (match_identity db d = Some n \<and> (passed \<or> verification_score (trust n) \<noteq> 1) \<longrightarrow>
          stored_trust (snd (RecordVerificationOutcome now db d passed latencyMs)) d
            = Some (record_outcome now passed latencyMs (trust n))
          \<and> score (record_outcome now passed latencyMs (trust n))
            = spec_score (record_outcome now passed latencyMs (trust n)))"
proof -
  note inv = reachable_in_range [OF assms]
  have range: "list_all (\<lambda>n. 0 \<le> score (trust n) \<and> score (trust n) \<le> 1000) db"
    using inv by (simp add: list_all_iff trust_in_range_def)
  have init: "score (initial_trust created) = spec_score (initial_trust created)"
    by (simp add: initial_trust_def spec_score_def)
  have step: "stored_trust (snd (RecordVerificationOutcome now db d passed latencyMs)) d
            = Some (record_outcome now passed latencyMs (trust n))
          \<and> score (record_outcome now passed latencyMs (trust n))
            = spec_score (record_outcome now passed latencyMs (trust n))"
    if m: "match_identity db d = Some n" and g: "passed \<or> verification_score (trust n) \<noteq> 1"
  proof -
    have "n \<in> set db" using m by (rule match_identity_mem)
    then have "trust_in_range (trust n)" using inv by (simp add: list_all_iff)
    then have r: "trust_in_range (record_outcome now passed latencyMs (trust n))"
      using g by (rule record_outcome_in_range)
    have s: "score (record_outcome now passed latencyMs (trust n)) =
        verification_score (record_outcome now passed latencyMs (trust n))
        + sla_score (record_outcome now passed latencyMs (trust n))
        + network_score (record_outcome now passed latencyMs (trust n))
        - dispute_penalty (record_outcome now passed latencyMs (trust n))"
      by (simp add: record_outcome_def Let_def)
    have "score (record_outcome now passed latencyMs (trust n))
        = spec_score (record_outcome now passed latencyMs (trust n))"
      using r s unfolding spec_score_def trust_in_range_def by linarith
    then show ?thesis using stored_trust_after_outcome [OF m] by simp
  qed
  show ?thesis using range init step by blast
qed

text \<open>
  C4 at Bob, spawned by Alice: the graph is reachable, its scores 150 and 500 are in
  range, and a failed outcome replaces Bob's inherited score 150 by the sum 219 of his
  components.
\<close>

theorem reachable_score_clamped_witness:
  "reachable spawned_graph
   \<and> list_all (\<lambda>n. 0 \<le> score (trust n) \<and> score (trust n) \<le> 1000) spawned_graph
   \<and> match_identity spawned_graph bob = Some bob_node
   \<and> verification_score (trust bob_node) \<noteq> 1
   \<and> stored_trust (snd (RecordVerificationOutcome 7 spawned_graph bob False 500)) bob =
       Some \<lparr>score = 219, verification_score = 58, dispute_penalty = 0, sla_score = 101,
             network_score = 60, t_updated_at = 7, verified_outcomes = 1, dispute_rate = 0,
             t_version = 3\<rparr>
   \<and> spec_score \<lparr>score = 219, verification_score = 58, dispute_penalty = 0, sla_score = 101,
             network_score = 60, t_updated_at = 7, verified_outcomes = 1, dispute_rate = 0,
             t_version = 3\<rparr> = 219"
proof -
  have r: "reachable spawned_graph"
    unfolding spawned_graph_def fresh_graph_def
    by (intro reachable.create reachable.empty)
  have m: "match_identity spawned_graph bob = Some bob_node"
    by (simp add: spawned_graph_eq match_identity_def bob_node_def)
  have v: "verification_score (trust bob_node) \<noteq> 1"
    by (simp add: bob_node_def bob_trust_def)
  have o: "record_outcome 7 False 500 (trust bob_node) =
      \<lparr>score = 219, verification_score = 58, dispute_penalty = 0, sla_score = 101,
       network_score = 60, t_updated_at = 7, verified_outcomes = 1, dispute_rate = 0,
       t_version = 3\<rparr>"
    by (simp add: record_outcome_def bob_node_def bob_trust_def Let_def)
  show ?thesis
    using reachable_score_clamped
      [OF r, where d = bob and n = bob_node and passed = False and now = 7
        and latencyMs = 500 and created = 0] r m v
    by (simp add: o)
qed

text \<open>
  C7 at a verification score of 1, which Alice reaches from her initial 200 by a hundred
  failed outcomes and a passed one: the next failed outcome stores - 1, not 0, and
  \<open>GetTrustScore\<close> reads it as 4294967295.
\<close>

theorem failed_outcome_at_one:
  "map_option verification_score (stored_trust last_point_graph alice) = Some 1
   \<and> map_option verification_score
        (stored_trust (snd (RecordVerificationOutcome 2 last_point_graph alice False 0)) alice)
       = Some (- 1)
   \<and> (case GetTrustScore (snd (RecordVerificationOutcome 2 last_point_graph alice False 0)) alice of
         Inl e \<Rightarrow> None
       | Inr t \<Rightarrow> Some (VerificationScore (Components t))) = Some 4294967295"
  unfolding last_point_graph_eq by code_simp

subsection \<open>Inheritance at spawn\<close>

text \<open>
  C6 as stated fails where the product has a fraction of a half or more: a parent at score
  336 (Alice after 164 failed outcomes) gives its child score 100, and
  \<open>round(inherited_tau * 1000)\<close> is 101.
\<close>

theorem inherited_score_truncates:
  "GetTrustScore worn_graph alice = Inr worn_trust
   \<and> stored_trust (snd (Service_CreateIdentity 5 worn_graph bob [] EntityTypeAgent (Some alice)))
        bob =
       Some \<lparr>score = 100, verification_score = 0, dispute_penalty = 0, sla_score = 100,
             network_score = 60, t_updated_at = 5, verified_outcomes = 0, dispute_rate = 0,
             t_version = 2\<rparr>
   \<and> spec_inherited_score worn_trust = 101"
  unfolding worn_graph_eq by code_simp

lemma spawn_stores_inherited_trust:
  assumes "GetTrustScore db p = Inr parentTrust"
    and "\<not> list_ex (\<lambda>n. did n = newDID) db"
  shows "stored_trust
           (snd (Service_CreateIdentity now db newDID publicKey entityType (Some p))) newDID =
         Some \<lparr>score = uint32_of_float (f64 (InheritedTauForChild parentTrust * 1000)),
               verification_score =
                 uint32_of_float
                   (f64 (of_int (VerificationScore (Components parentTrust)) * InheritedTrust)),
               dispute_penalty = 0,
               sla_score = 100,
               network_score =
                 uint32_of_float
                   (f64 (of_int (NetworkScore (Components parentTrust)) * InheritedTrust)),
               t_updated_at = now, verified_outcomes = 0, dispute_rate = 0, t_version = 2\<rparr>"
proof -
  define i where "i =
    \<lparr>did = newDID, entity_type = EntityType_String entityType, created_at = now,
     public_key = publicKey, spawned_by = Some p, trust = initial_trust now,
     wallet = initial_wallet now now\<rparr>"
  obtain pn where pn: "match_identity db p = Some pn"
    using assms(1) by (auto simp: GetTrustScore_def split: option.splits)
  have ex: "list_ex (\<lambda>n. did n = p) db"
    using pn by (rule match_identity_in_graph)
  have ne: "newDID \<noteq> p" using ex assms(2) by auto
  have created: "CreateIdentity now db
      \<lparr>DID = newDID, EntityTypeOf = entityType, ParentDID = Some p, CreatedAt = now,
       PublicKey = publicKey\<rparr> = (Inr (), i # db)"
    using assms(2) ex by (simp add: CreateIdentity_def i_def)
  have parent: "GetTrustScore (i # db) p = Inr parentTrust"
    using assms(1) ne by (simp add: GetTrustScore_def match_identity_Cons i_def)
  have child: "GetTrustScore (i # db) newDID =
      Inr \<lparr>Score = 500,
           Components = \<lparr>VerificationScore = 200, DisputePenalty = 0, SLAScore = 100,
                         NetworkScore = 200\<rparr>,
           VerifiedOutcomes = 0, DisputeRate = 0, Version = 1\<rparr>"
    by (simp add: GetTrustScore_def match_identity_Cons i_def initial_trust_def
        uint32_of_int64_def uint64_of_int64_def)
  define upd where "upd =
    \<lparr>Score = uint32_of_float (f64 (InheritedTauForChild parentTrust * 1000)),
     Components =
       \<lparr>VerificationScore =
          uint32_of_float
            (f64 (of_int (VerificationScore (Components parentTrust)) * InheritedTrust)),
        DisputePenalty = 0, SLAScore = 100,
        NetworkScore =
          uint32_of_float
            (f64 (of_int (NetworkScore (Components parentTrust)) * InheritedTrust))\<rparr>,
     VerifiedOutcomes = 0, DisputeRate = 0, Version = 1\<rparr>"
  have inh: "inheritParentTrust now (i # db) newDID p = UpdateTrustScore now (i # db) newDID upd"
    by (simp add: inheritParentTrust_def parent child Let_def MaxScore_def upd_def)
  have uts: "stored_trust (snd (UpdateTrustScore now (i # db) newDID upd)) newDID =
      Some \<lparr>score = Score upd,
            verification_score = VerificationScore (Components upd),
            dispute_penalty = 0, sla_score = 100,
            network_score = NetworkScore (Components upd),
            t_updated_at = now, verified_outcomes = 0, dispute_rate = 0, t_version = 2\<rparr>"
    by (simp add: UpdateTrustScore_def Let_def cypher_rows_def stored_trust_def
        match_identity_cypher_set match_identity_Cons i_def initial_trust_def upd_def)
  have svc: "snd (Service_CreateIdentity now db newDID publicKey entityType (Some p)) =
      snd (inheritParentTrust now (i # db) newDID p)"
    by (simp add: Service_CreateIdentity_def created Let_def)
  show ?thesis
    unfolding svc inh uts by (simp add: upd_def)
qed

text \<open>
  C6, as the code has it: a child created with an existing parent gets
  \<open>score = uint32(inherited_tau * 1000)\<close>, the binary64 product with its fraction dropped,
  where \<open>inherited_tau\<close> is the parent's \<open>InheritedTauForChild\<close>; its verification and network
  scores are the parent's multiplied by 0.30 in binary64, fraction dropped; its dispute
  penalty and SLA score stay at the defaults 0 and 100; its version becomes 2.
\<close>

theorem inherit_on_spawn:
  assumes "GetTrustScore db p = Inr parentTrust"
    and "\<not> list_ex (\<lambda>n. did n = newDID) db"
  shows "stored_trust
           (snd (Service_CreateIdentity now db newDID publicKey entityType (Some p))) newDID =
         Some \<lparr>score = uint32_of_float (f64 (InheritedTauForChild parentTrust * 1000)),
               verification_score =
                 uint32_of_float
                   (f64 (of_int (VerificationScore (Components parentTrust)) * InheritedTrust)),
               dispute_penalty = 0,
               sla_score = 100,
               network_score =
                 uint32_of_float
                   (f64 (of_int (NetworkScore (Components parentTrust)) * InheritedTrust)),
               t_updated_at = now, verified_outcomes = 0, dispute_rate = 0, t_version = 2\<rparr>"
  using assms by (rule spawn_stores_inherited_trust)

text \<open>C6 at a child of Alice at score 336.\<close>

theorem inherit_on_spawn_witness:
  "GetTrustScore worn_graph alice = Inr worn_trust
   \<and> \<not> list_ex (\<lambda>n. did n = bob) worn_graph
   \<and> stored_trust (snd (Service_CreateIdentity 5 worn_graph bob [] EntityTypeAgent (Some alice)))
        bob =
       Some \<lparr>score = 100, verification_score = 0, dispute_penalty = 0, sla_score = 100,
             network_score = 60, t_updated_at = 5, verified_outcomes = 0, dispute_rate = 0,
             t_version = 2\<rparr>"
proof -
  have g: "GetTrustScore worn_graph alice = Inr worn_trust"
    unfolding worn_graph_eq by code_simp
  have f: "\<not> list_ex (\<lambda>n. did n = bob) worn_graph"
    unfolding worn_graph_eq by code_simp
  have s: "uint32_of_float (f64 (InheritedTauForChild worn_trust * 1000)) = 100"
    by code_simp
  have v: "uint32_of_float
      (f64 (of_int (VerificationScore (Components worn_trust)) * InheritedTrust)) = 0"
    by code_simp
  have n: "uint32_of_float
      (f64 (of_int (NetworkScore (Components worn_trust)) * InheritedTrust)) = 60"
    by code_simp
  show ?thesis
    using inherit_on_spawn [OF g f, where now = 5 and publicKey = "[]"
        and entityType = EntityTypeAgent] g f
    by (simp add: s v n)
qed

lemma GetTrustScore_stored:
  assumes "stored_trust db d = Some tn"
  shows "GetTrustScore db d =
      Inr \<lparr>Score = uint32_of_int64 (score tn),
           Components =
             \<lparr>VerificationScore = uint32_of_int64 (verification_score tn),
              DisputePenalty = uint32_of_int64 (dispute_penalty tn),
              SLAScore = uint32_of_int64 (sla_score tn),
              NetworkScore = uint32_of_int64 (network_score tn)\<rparr>,
           VerifiedOutcomes = uint64_of_int64 (verified_outcomes tn),
           DisputeRate = dispute_rate tn,
           Version = uint64_of_int64 (t_version tn)\<rparr>"
  using assms by (auto simp: stored_trust_def GetTrustScore_def split: option.splits)

text \<open>
  C9: a child spawned by a parent whose score is in \<open>[0, 1000]\<close> starts with the score
  \<open>uint32(inherited_tau * 1000)\<close>, where the parent's
  \<open>inherited_tau_for_child() = max(tau() * 0.30, 0.10)\<close> (in binary64) is at least 0.10 and at
  most 0.30, and the child's own tau, read back after the spawn, is at least 0.10 and at
  most 0.30.
\<close>

theorem spawned_child_tau_bounds:
  assumes "GetTrustScore db p = Inr parentTrust"
    and "Score parentTrust \<le> 1000"
    and "\<not> list_ex (\<lambda>n. did n = newDID) db"
  shows "\<exists>childTrust.
      GetTrustScore (snd (Service_CreateIdentity now db newDID publicKey entityType (Some p)))
        newDID = Inr childTrust
      \<and> InheritedTauForChild parentTrust =
          max (f64 (f64 (of_int (Score parentTrust) / 1000) * f64 (30 / 100))) (f64 (10 / 100))
      \<and> 1 / 10 \<le> InheritedTauForChild parentTrust
      \<and> InheritedTauForChild parentTrust \<le> 3 / 10
      \<and> Score childTrust = uint32_of_float (f64 (InheritedTauForChild parentTrust * 1000))
      \<and> 1 / 10 \<le> Tau childTrust \<and> Tau childTrust \<le> 3 / 10"
proof -
  have s0: "0 \<le> Score parentTrust"
    using assms(1) by (auto simp: GetTrustScore_def uint32_of_int64_def split: option.splits)
  define s where "s = uint32_of_float (f64 (InheritedTauForChild parentTrust * 1000))"
  have sr: "100 \<le> s \<and> s \<le> 300"
    unfolding s_def using s0 assms(2) by (rule inherited_score_range)
  note st = spawn_stores_inherited_trust [OF assms(1,3), of now publicKey entityType]
  note g = GetTrustScore_stored [OF st]
  have eq: "InheritedTauForChild parentTrust =
      max (f64 (f64 (of_int (Score parentTrust) / 1000) * f64 (30 / 100))) (f64 (10 / 100))"
    by (simp add: InheritedTauForChild_def Let_def Tau_def MaxScore_def InheritedTrust_def
        MinInheritedTau_def max_def)
  have b: "1 / 10 \<le> InheritedTauForChild parentTrust \<and> InheritedTauForChild parentTrust \<le> 3 / 10"
    using s0 assms(2) by (rule inherited_tau_bounds)
  have rd: "uint32_of_int64 s = s"
    using sr by (simp add: uint32_of_int64_def)
  have "f64 (100 / 1000) \<le> f64 (of_int s / 1000)"
    using sr by (intro f64_mono) simp_all
  moreover have "f64 (of_int s / 1000) \<le> f64 (300 / 1000)"
    using sr by (intro f64_mono) simp_all
  ultimately have t: "1 / 10 \<le> f64 (of_int s / 1000) \<and> f64 (of_int s / 1000) \<le> 3 / 10"
    using child_tau_facts by linarith
  show ?thesis
  proof (intro exI conjI)
    show "GetTrustScore
        (snd (Service_CreateIdentity now db newDID publicKey entityType (Some p))) newDID =
      Inr \<lparr>Score = uint32_of_int64 s,
           Components =
             \<lparr>VerificationScore =
                uint32_of_int64
                  (uint32_of_float
                    (f64 (of_int (VerificationScore (Components parentTrust)) * InheritedTrust))),
              DisputePenalty = uint32_of_int64 0,
              SLAScore = uint32_of_int64 100,
              NetworkScore =
                uint32_of_int64
                  (uint32_of_float
                    (f64 (of_int (NetworkScore (Components parentTrust)) * InheritedTrust)))\<rparr>,
           VerifiedOutcomes = uint64_of_int64 0,
           DisputeRate = 0,
           Version = uint64_of_int64 2\<rparr>"
      using g by (simp add: s_def)
    show "InheritedTauForChild parentTrust =
      max (f64 (f64 (of_int (Score parentTrust) / 1000) * f64 (30 / 100))) (f64 (10 / 100))"
      by (rule eq)
    show "1 / 10 \<le> InheritedTauForChild parentTrust" using b by simp
    show "InheritedTauForChild parentTrust \<le> 3 / 10" using b by simp
  qed (use t in \<open>simp_all add: rd s_def [symmetric] Tau_def MaxScore_def\<close>)
qed

text \<open>C9 at Bob, spawned by Alice at her initial score 500: Bob starts at score 150.\<close>

theorem spawned_child_tau_bounds_witness:
  "GetTrustScore fresh_graph alice = Inr alice_trust
   \<and> Score alice_trust \<le> 1000
   \<and> \<not> list_ex (\<lambda>n. did n = bob) fresh_graph
   \<and> GetTrustScore (snd (Service_CreateIdentity 5 fresh_graph bob [] EntityTypeAgent (Some alice)))
        bob = Inr bob_read
   \<and> Score bob_read = 150
   \<and> 1 / 10 \<le> Tau bob_read \<and> Tau bob_read \<le> 3 / 10"
proof -
  have a: "GetTrustScore fresh_graph alice = Inr alice_trust"
    unfolding fresh_graph_eq by code_simp
  have l: "Score alice_trust \<le> 1000" by (simp add: alice_trust_def)
  have f: "\<not> list_ex (\<lambda>n. did n = bob) fresh_graph"
    unfolding fresh_graph_eq by code_simp
  have c: "GetTrustScore (snd (Service_CreateIdentity 5 fresh_graph bob [] EntityTypeAgent
      (Some alice))) bob = Inr bob_read"
    unfolding spawned_graph_def [symmetric] spawned_graph_eq by code_simp
  obtain childTrust where
    "GetTrustScore (snd (Service_CreateIdentity 5 fresh_graph bob [] EntityTypeAgent
        (Some alice))) bob = Inr childTrust"
    "1 / 10 \<le> Tau childTrust \<and> Tau childTrust \<le> 3 / 10"
    using spawned_child_tau_bounds [OF a l f, of 5 "[]" EntityTypeAgent] by blast
  then have "1 / 10 \<le> Tau bob_read \<and> Tau bob_read \<le> 3 / 10"
    using c by simp
  then show ?thesis using a l f c by (simp add: bob_read_def)
qed

subsection \<open>Escrow wallet\<close>

lemma release_refund_never_fail:
  "fst (ReleaseHC now db d amount) = Inr () \<and> fst (RefundHC now db d amount) = Inr ()"
  by (simp add: ReleaseHC_def RefundHC_def Let_def)

text \<open>
  C1 at Alice's fresh wallet (nothing locked) and the amount 5: \<open>ReleaseHC\<close> and \<open>RefundHC\<close>
  leave the wallet as it was and report success.
\<close>

theorem release_refund_beyond_locked:
  "map_option locked (stored_wallet fresh_graph alice) = Some 0
   \<and> ReleaseHC 7 fresh_graph alice 5 = (Inr (), fresh_graph)
   \<and> RefundHC 7 fresh_graph alice 5 = (Inr (), fresh_graph)"
  unfolding fresh_graph_eq by code_simp

text \<open>
  C2 at a wallet credited with 0.9: after \<open>LockHC\<close> of 0.2 and \<open>RefundHC\<close> of 0.2 the
  available amount is the binary64 value just below the one stored before the lock.
\<close>

theorem lock_refund_drift:
  "map_option available (stored_wallet credited_graph alice) = Some (f64 (9 / 10))
   \<and> map_option locked (stored_wallet credited_graph alice) = Some 0
   \<and> LockHC 2 credited_graph alice (2 / 10) 2 = (Inr (), escrow_graph)
   \<and> RefundHC 3 escrow_graph alice (2 / 10) = (Inr (), refunded_graph)
   \<and> map_option available (stored_wallet refunded_graph alice) = Some (f64 (9 / 10) - 1 / 2 ^ 53)
   \<and> map_option locked (stored_wallet refunded_graph alice) = Some 0"
  unfolding refunded_graph_eq escrow_graph_eq credited_graph_eq by code_simp

text \<open>
  C10 at a wallet credited with 10000000000000002: a lock of 1 and then a refund of 1
  both succeed, and the total that Go reads goes from 10000000000000002 to
  10000000000000001 to 10000000000000000.
\<close>

theorem lock_refund_change_total:
  "wallet_total plain_driver big_graph alice = Some 10000000000000002
   \<and> fst (LockHC 2 big_graph alice 1 2) = Inr ()
   \<and> wallet_total plain_driver (snd (LockHC 2 big_graph alice 1 2)) alice
       = Some 10000000000000001
   \<and> wallet_total plain_driver (snd (RefundHC 3 (snd (LockHC 2 big_graph alice 1 2)) alice 1)) alice
       = Some 10000000000000000"
  unfolding big_graph_eq by code_simp

subsection \<open>Amounts at the handlers\<close>

lemma credit_debit_check_amount:
  assumes "d \<noteq> []" "amount \<le> 0"
  shows "CreditWallet drv now db d (Decimal amount) =
           (Inl (InvalidArgument, ''amount must be positive''), db)"
    and "DebitWallet drv now db d (Decimal amount) =
           (Inl (InvalidArgument, ''amount must be positive''), db)"
  using assms by (simp_all add: CreditWallet_def DebitWallet_def)

lemma lock_wallet_no_amount_check:
  assumes "d \<noteq> []"
  shows "fst (LockWallet drv now db d (Decimal amount)) \<noteq> Inl (InvalidArgument, msg)"
  using assms
  by (auto simp: LockWallet_def wallet_reply_def split: prod.splits sum.splits)

text \<open>
  C8 at Alice's fresh wallet: \<open>ReleaseWallet\<close> with the amount - 5 and no target is not
  rejected; it refunds - 5, which leaves - 5 available and 5 locked.
\<close>

theorem release_wallet_negative_amount:
  "ReleaseWallet plain_driver 7 fresh_graph alice (Decimal (- 5)) None =
     (Inr \<lparr>OwnerDID = alice, Available = - 5, Locked = 5, ExpiresAt = P30D, WVersion = 2\<rparr>,
      [alice_node\<lparr>wallet := \<lparr>available = - 5, locked = 5, expires_at = P30D, w_version = 2,
         w_updated_at = 7\<rparr>\<rparr>])"
  unfolding fresh_graph_eq by code_simp

subsection \<open>Lineage\<close>

text \<open>
  C5 at Carol, spawned by Bob, spawned by Alice: \<open>GetAgentLineage\<close> returns the DIDs from
  the root to Carol and depth 2; \<open>ResolveLineage\<close> answers Carol, Alice, Bob, Carol with the
  factors 1, 0.30, 0.30 * 0.30 and 0.30 * 0.30 * 0.30 (in binary64), so the root has 0.30
  and the direct parent 0.30 * 0.30.
\<close>

theorem lineage_factors_start_at_root:
  "GetAgentLineage family_graph carol =
     Inr \<lparr>AgentDID = carol, LineageParentDID = Some bob, RootDID = alice, Depth = 2,
          Ancestors = [alice, bob, carol]\<rparr>
   \<and> (case ResolveLineage plain_driver family_graph carol of
         Inl e \<Rightarrow> None
       | Inr (lineageIDs, trustInheritance) \<Rightarrow> Some (map DID lineageIDs, trustInheritance)) =
       Some ([carol, alice, bob, carol],
             [1, f64 (3 / 10), f64 (f64 (3 / 10) * f64 (3 / 10)),
              f64 (f64 (f64 (3 / 10) * f64 (3 / 10)) * f64 (3 / 10))])"
  unfolding family_graph_eq by code_simp

end
